theory Spec2Isabelle
  imports Main
begin

section \<open>The PRT-7 decoder of \<^verbatim>\<open>src/main.cpp\<close>\<close>

text \<open>
  The program reads text lines, parses each one into a frame (\<^verbatim>\<open>L,X\<close> or \<^verbatim>\<open>M,N\<close>) and
  applies it to two linked structures: a doubly linked list of decoded characters and a
  circular doubly linked list of the letters A..Z whose head pointer is the rotor position.

  Conventions of the embedding:
  \<^item> The heap of each structure is a list of nodes; an address is an index into that list,
    \<^verbatim>\<open>new\<close> appends a node, and a pointer is \<open>nat option\<close> with \<open>None\<close> for \<^verbatim>\<open>nullptr\<close>.
  \<^item> A function that dereferences a pointer returns an \<open>option\<close>: \<open>None\<close> stands for a
    null or dangling dereference, or for a loop that does not end.
  \<^item> The text written to \<^verbatim>\<open>cout\<close> is a \<open>string\<close>; \<^verbatim>\<open>endl\<close> is the character 10. Every
    function that prints returns the text it printed.
  \<^item> A \<^verbatim>\<open>char\<close> is compared through its code \<open>of_char\<close>. The source only compares against
    ASCII letters, so a signed and an unsigned \<^verbatim>\<open>char\<close> take the same branches.
  \<^item> An \<^verbatim>\<open>int\<close> is modelled as \<open>int\<close>; the only place where the 32 bits matter is the
    result of \<^verbatim>\<open>atoi\<close>, which is cut to 32 bits there.
  \<^item> Record fields carry a prefix (\<open>nc_\<close>, \<open>nr_\<close>, \<open>lc_\<close>, \<open>rm_\<close>) because \<^verbatim>\<open>prev\<close>, \<^verbatim>\<open>next\<close>
    and \<^verbatim>\<open>head\<close> occur in several classes of the source.
\<close>

type_synonym ptr = "nat option"

subsection \<open>Characters and the C library\<close>

definition endl :: string where
  "endl = [CHR 0x0A]"

text \<open>\<^verbatim>\<open>isspace\<close> in the C locale (the program never calls \<^verbatim>\<open>setlocale\<close>): space and the
  control characters 9 to 13.\<close>

definition isspace :: "char \<Rightarrow> bool" where
  "isspace x = (x = CHR '' '' \<or> (9 \<le> (of_char x :: nat) \<and> (of_char x :: nat) \<le> 13))"

definition isdigit :: "char \<Rightarrow> bool" where
  "isdigit x = (48 \<le> (of_char x :: nat) \<and> (of_char x :: nat) \<le> 57)"

text \<open>\<^verbatim>\<open>tolower\<close> in the C locale, as \<^verbatim>\<open>strcasecmp\<close> applies it to each byte.\<close>

definition tolower :: "char \<Rightarrow> char" where
  "tolower x = (if 65 \<le> (of_char x :: nat) \<and> (of_char x :: nat) \<le> 90
                then char_of ((of_char x :: nat) + 32) else x)"

text \<open>\<^verbatim>\<open>strcasecmp(a, b) == 0\<close>.\<close>

definition strcasecmp_eq :: "string \<Rightarrow> string \<Rightarrow> bool" where
  "strcasecmp_eq a b = (map tolower a = map tolower b)"

text \<open>A C string ends at its first NUL: what \<^verbatim>\<open>strlen\<close>, \<^verbatim>\<open>strncpy\<close> and \<^verbatim>\<open><<\<close> see of a
  \<^verbatim>\<open>const char*\<close>.\<close>

definition cstr :: "string \<Rightarrow> string" where
  "cstr s = takeWhile (\<lambda>x. x \<noteq> CHR 0x00) s"

text \<open>\<^verbatim>\<open>operator<<\<close> for an \<^verbatim>\<open>int\<close>: decimal digits, with a minus sign for a negative
  number.\<close>

fun digitos :: "nat \<Rightarrow> string" where
  "digitos n = (if n < 10 then [char_of (48 + n)]
                else digitos (n div 10) @ [char_of (48 + n mod 10)])"

declare digitos.simps [simp del]

definition show_int :: "int \<Rightarrow> string" where
  "show_int i = (if i < 0 then CHR ''-'' # digitos (nat (- i)) else digitos (nat i))"

text \<open>The remainder of C's \<^verbatim>\<open>%\<close> on \<^verbatim>\<open>int\<close>: the division truncates towards zero, so the
  remainder has the sign of the dividend.\<close>

definition rem_c :: "int \<Rightarrow> int \<Rightarrow> int" where
  "rem_c a b = sgn a * (\<bar>a\<bar> mod \<bar>b\<bar>)"

text \<open>\<^verbatim>\<open>atoi\<close>, which is \<^verbatim>\<open>(int) strtol(s, NULL, 10)\<close> in the C library of the Linux target
  the program is written for: leading white space is skipped, one sign is accepted, the
  digits that follow are read and the scan stops at the first other character. \<^verbatim>\<open>strtol\<close>
  keeps the value inside the 64-bit \<^verbatim>\<open>long\<close>, and the conversion to \<^verbatim>\<open>int\<close> keeps the low
  32 bits.\<close>

definition valor_digitos :: "string \<Rightarrow> int" where
  "valor_digitos ds = foldl (\<lambda>a d. 10 * a + (int (of_char d) - 48)) 0 ds"

definition a_int32 :: "int \<Rightarrow> int" where
  "a_int32 x = (x + 2147483648) mod 4294967296 - 2147483648"

definition strtol10 :: "string \<Rightarrow> int" where
  "strtol10 s =
     (let s1 = dropWhile isspace s;
          neg = (s1 \<noteq> [] \<and> hd s1 = CHR ''-'');
          s2 = (if s1 \<noteq> [] \<and> (hd s1 = CHR ''-'' \<or> hd s1 = CHR ''+'') then tl s1 else s1);
          v = valor_digitos (takeWhile isdigit s2)
      in if neg then max (- 9223372036854775808) (- v) else min 9223372036854775807 v)"

definition atoi :: "string \<Rightarrow> int" where
  "atoi s = a_int32 (strtol10 s)"

text \<open>\<^verbatim>\<open>strtok\<close> with the delimiter \<^verbatim>\<open>","\<close>. The argument is the text at the saved position
  (the whole buffer on the first call); the result is the token and the text left after the
  delimiter that ended it, or \<open>None\<close> for \<^verbatim>\<open>NULL\<close>. Leading delimiters are skipped, so an
  empty field is never a token.\<close>

definition strtok :: "string \<Rightarrow> (string \<times> string) option" where
  "strtok s =
     (let s1 = dropWhile (\<lambda>x. x = CHR '','') s
      in if s1 = [] then None
         else Some (takeWhile (\<lambda>x. x \<noteq> CHR '','') s1,
                    drop 1 (dropWhile (\<lambda>x. x \<noteq> CHR '','') s1)))"

subsection \<open>\<^verbatim>\<open>trim\<close>\<close>

text \<open>The first loop skips the leading white space and \<^verbatim>\<open>memmove\<close> shifts the rest to the
  front; the second loop overwrites the trailing white space with NUL.\<close>

definition trim :: "string \<Rightarrow> string" where
  "trim s = rev (dropWhile isspace (rev (dropWhile isspace s)))"

subsection \<open>\<^verbatim>\<open>ListaDeCarga\<close>: the doubly linked list of decoded characters\<close>

record NodoCarga =
  nc_dato :: char
  nc_prev :: ptr
  nc_next :: ptr

record ListaDeCarga =
  lc_nodos :: "NodoCarga list"
  lc_head :: ptr
  lc_tail :: ptr

definition ListaDeCarga_nueva :: ListaDeCarga where
  "ListaDeCarga_nueva = \<lparr>lc_nodos = [], lc_head = None, lc_tail = None\<rparr>"

definition insertarAlFinal :: "char \<Rightarrow> ListaDeCarga \<Rightarrow> ListaDeCarga option" where
  "insertarAlFinal d L =
     (let n = length (lc_nodos L);
          st = lc_nodos L @ [\<lparr>nc_dato = d, nc_prev = None, nc_next = None\<rparr>]
      in case lc_tail L of
           None \<Rightarrow> Some \<lparr>lc_nodos = st, lc_head = Some n, lc_tail = Some n\<rparr>
         | Some t \<Rightarrow>
             if t < n
             then let st1 = st[t := (st ! t)\<lparr>nc_next := Some n\<rparr>];
                      st2 = st1[n := (st1 ! n)\<lparr>nc_prev := Some t\<rparr>]
                  in Some \<lparr>lc_nodos = st2, lc_head = lc_head L, lc_tail = Some n\<rparr>
             else None)"

text \<open>The loop \<^verbatim>\<open>while (cur) { ... cur = cur->next; }\<close> of the two printing functions,
  collecting \<^verbatim>\<open>cur->dato\<close>. The first argument bounds the number of nodes visited.\<close>

fun recorrer :: "nat \<Rightarrow> NodoCarga list \<Rightarrow> ptr \<Rightarrow> string option" where
  "recorrer k st None = Some []"
| "recorrer 0 st (Some a) = None"
| "recorrer (Suc k) st (Some a) =
     (if a < length st
      then map_option (\<lambda>r. nc_dato (st ! a) # r) (recorrer k st (nc_next (st ! a)))
      else None)"

text \<open>The characters of the list from \<^verbatim>\<open>head\<close>. A walk that visits more nodes than the heap
  holds has come back to a node it has seen and never ends, so the number of nodes is
  all the fuel a walk that ends can need.\<close>

definition contenido :: "ListaDeCarga \<Rightarrow> string option" where
  "contenido L = recorrer (length (lc_nodos L)) (lc_nodos L) (lc_head L)"

definition imprimirMensaje :: "ListaDeCarga \<Rightarrow> string option" where
  "imprimirMensaje L =
     map_option (\<lambda>m. ''Mensaje: '' @ concat (map (\<lambda>d. ''['' @ [d] @ '']'') m) @ endl)
       (contenido L)"

definition imprimirMensajeFinal :: "ListaDeCarga \<Rightarrow> string option" where
  "imprimirMensajeFinal L =
     map_option (\<lambda>m. ''MENSAJE OCULTO ENSAMBLADO:'' @ endl @ m @ endl) (contenido L)"

subsection \<open>\<^verbatim>\<open>RotorDeMapeo\<close>: the circular list of the alphabet\<close>

record NodoRotor =
  nr_c :: char
  nr_prev :: ptr
  nr_next :: ptr

record RotorDeMapeo =
  rm_nodos :: "NodoRotor list"
  rm_head :: ptr
  rm_size :: int

text \<open>One round of the constructor's loop, for the character \<open>ch\<close>. The state is the heap
  and the locals \<^verbatim>\<open>first\<close>, \<^verbatim>\<open>prev\<close> and \<^verbatim>\<open>size\<close>.\<close>

definition construir_paso ::
  "NodoRotor list \<times> ptr \<times> ptr \<times> int \<Rightarrow> char \<Rightarrow> NodoRotor list \<times> ptr \<times> ptr \<times> int" where
  "construir_paso s ch =
     (case s of (st, first, prev, sz) \<Rightarrow>
        let n = length st;
            st1 = st @ [\<lparr>nr_c = ch, nr_prev = None, nr_next = None\<rparr>];
            first1 = (if first = None then Some n else first);
            st2 = (case prev of
                     None \<Rightarrow> st1
                   | Some p \<Rightarrow> (st1[p := (st1 ! p)\<lparr>nr_next := Some n\<rparr>])
                                  [n := (st1 ! n)\<lparr>nr_prev := Some p\<rparr>])
        in (st2, first1, Some n, sz + 1))"

text \<open>The characters \<^verbatim>\<open>'A'\<close> to \<^verbatim>\<open>'Z'\<close> of the loop header.\<close>

definition alfabeto :: string where
  "alfabeto = map char_of [65 ..< (91::nat)]"

definition RotorDeMapeo_nuevo :: RotorDeMapeo where
  "RotorDeMapeo_nuevo =
     (case foldl construir_paso ([], None, None, 0) alfabeto of
        (st, first, prev, sz) \<Rightarrow>
          (case (first, prev) of
             (Some f, Some p) \<Rightarrow>
               \<lparr>rm_nodos = (st[f := (st ! f)\<lparr>nr_prev := Some p\<rparr>])
                              [p := ((st[f := (st ! f)\<lparr>nr_prev := Some p\<rparr>]) ! p)
                                       \<lparr>nr_next := Some f\<rparr>],
                rm_head = Some f, rm_size = sz\<rparr>
           | _ \<Rightarrow> \<lparr>rm_nodos = st, rm_head = None, rm_size = sz\<rparr>))"

text \<open>\<open>k\<close> times \<^verbatim>\<open>p = p->next\<close>, the body of the loops of \<^verbatim>\<open>rotar\<close> and \<^verbatim>\<open>getMapeo\<close>.\<close>

fun avanzar :: "nat \<Rightarrow> NodoRotor list \<Rightarrow> ptr \<Rightarrow> ptr option" where
  "avanzar 0 st p = Some p"
| "avanzar (Suc k) st p =
     (case p of
        None \<Rightarrow> None
      | Some a \<Rightarrow> if a < length st then avanzar k st (nr_next (st ! a)) else None)"

text \<open>The local \<^verbatim>\<open>effective\<close> of \<^verbatim>\<open>rotar\<close>.\<close>

definition efectivo :: "int \<Rightarrow> int \<Rightarrow> int" where
  "efectivo N sz = (let e = rem_c N sz in if e < 0 then e + sz else e)"

definition rotar :: "int \<Rightarrow> RotorDeMapeo \<Rightarrow> (RotorDeMapeo \<times> string) option" where
  "rotar N R =
     (if rm_head R = None \<or> rm_size R \<le> 1 then Some (R, [])
      else
        let effective = efectivo N (rm_size R)
        in case avanzar (nat effective) (rm_nodos R) (rm_head R) of
             None \<Rightarrow> None
           | Some h \<Rightarrow>
               Some (R\<lparr>rm_head := h\<rparr>,
                     '' -> ROTANDO ROTOR '' @ (if N \<ge> 0 then ''+'' else []) @ show_int N
                       @ '' (efectivo: +'' @ show_int effective @ '')'' @ endl))"

definition getMapeo :: "char \<Rightarrow> RotorDeMapeo \<Rightarrow> char option" where
  "getMapeo x R =
     (if x = CHR '' '' then Some CHR '' ''
      else
        let y = (if 97 \<le> (of_char x :: nat) \<and> (of_char x :: nat) \<le> 122
                 then char_of ((of_char x :: nat) - 97 + 65) else x)
        in if (of_char y :: nat) < 65 \<or> (of_char y :: nat) > 90 then Some y
           else
             case avanzar ((of_char y :: nat) - 65) (rm_nodos R) (rm_head R) of
               Some (Some a) \<Rightarrow> if a < length (rm_nodos R) then Some (nr_c (rm_nodos R ! a)) else None
             | _ \<Rightarrow> None)"

text \<open>The loop of \<^verbatim>\<open>imprimirEstado\<close>: \<open>k\<close> times print \<^verbatim>\<open>cur->c\<close> and step to the next node.\<close>

fun letras_desde :: "nat \<Rightarrow> NodoRotor list \<Rightarrow> ptr \<Rightarrow> string option" where
  "letras_desde 0 st p = Some []"
| "letras_desde (Suc k) st p =
     (case p of
        None \<Rightarrow> None
      | Some a \<Rightarrow>
          if a < length st
          then map_option (\<lambda>r. nr_c (st ! a) # r) (letras_desde k st (nr_next (st ! a)))
          else None)"

definition imprimirEstado :: "RotorDeMapeo \<Rightarrow> string option" where
  "imprimirEstado R =
     (if rm_head R = None then Some []
      else map_option (\<lambda>m. ''Estado rotor (desde head): '' @ m @ endl)
             (letras_desde (nat (rm_size R)) (rm_nodos R) (rm_head R)))"

subsection \<open>Frames\<close>

datatype Trama = TramaLoad char | TramaMap int

text \<open>\<^verbatim>\<open>procesar\<close> of the two classes: the new list, the new rotor and the text printed.\<close>

fun procesar :: "Trama \<Rightarrow> ListaDeCarga \<Rightarrow> RotorDeMapeo
    \<Rightarrow> (ListaDeCarga \<times> RotorDeMapeo \<times> string) option" where
  "procesar (TramaLoad fragmento) carga rotor =
     (case getMapeo fragmento rotor of
        None \<Rightarrow> None
      | Some dec \<Rightarrow>
          (case insertarAlFinal dec carga of
             None \<Rightarrow> None
           | Some carga1 \<Rightarrow>
               (case imprimirMensaje carga1 of
                  None \<Rightarrow> None
                | Some m \<Rightarrow>
                    Some (carga1, rotor,
                          ''Trama: [L, ''
                            @ (if fragmento = CHR '' '' then ''Space'' else [fragmento])
                            @ ''] -> Procesando...''
                            @ '' -> Fragmento '' @ [CHR 0x27, fragmento, CHR 0x27]
                            @ '' decodificado como '' @ [CHR 0x27, dec, CHR 0x27] @ ''. ''
                            @ m))))"
| "procesar (TramaMap desplazamiento) carga rotor =
     (case rotar desplazamiento rotor of
        None \<Rightarrow> None
      | Some (rotor1, m1) \<Rightarrow>
          (case imprimirEstado rotor1 of
             None \<Rightarrow> None
           | Some m2 \<Rightarrow>
               Some (carga, rotor1,
                     ''Trama: [M,'' @ show_int desplazamiento @ ''] -> Procesando... ''
                       @ m1 @ m2)))"

subsection \<open>\<^verbatim>\<open>parseLinea\<close>\<close>

text \<open>The result is the text printed and the frame, \<open>None\<close> for \<^verbatim>\<open>nullptr\<close>. The buffer has
  128 bytes, the last of them set to NUL, so it holds the first 127 characters of the
  line.\<close>

definition parseLinea :: "string \<Rightarrow> string \<times> Trama option" where
  "parseLinea lineaC =
     (let buffer = trim (take 127 (cstr lineaC))
      in if length buffer = 0 then ([], None)
         else
           case strtok buffer of
             None \<Rightarrow> ([], None)
           | Some (token0, resto) \<Rightarrow>
               let token = trim token0
               in if length token = 0 then ([], None)
                  else if (hd token = CHR ''L'' \<or> hd token = CHR ''l'') \<and> tl token = [] then
                    (case strtok resto of
                       None \<Rightarrow> (''Trama L sin argumento.'' @ endl, None)
                     | Some (arg0, resto1) \<Rightarrow>
                         let arg = trim arg0
                         in if arg \<noteq> [] \<and> (hd arg = CHR ''S'' \<or> hd arg = CHR ''s'')
                               \<and> strcasecmp_eq arg ''Space''
                            then ([], Some (TramaLoad CHR '' ''))
                            else if length arg = 1 then ([], Some (TramaLoad (hd arg)))
                            else if length arg > 1 then ([], Some (TramaLoad (hd arg)))
                            else ([], None))
                  else if (hd token = CHR ''M'' \<or> hd token = CHR ''m'') \<and> tl token = [] then
                    (case strtok resto of
                       None \<Rightarrow> (''Trama M sin argumento.'' @ endl, None)
                     | Some (arg0, resto1) \<Rightarrow> ([], Some (TramaMap (atoi (trim arg0)))))
                  else (''Tipo de trama desconocido: '' @ token @ endl, None))"

subsection \<open>The loop of \<^verbatim>\<open>main\<close>\<close>

record sesion =
  miCarga :: ListaDeCarga
  miRotor :: RotorDeMapeo
  cout :: string

text \<open>The two objects as their constructors leave them. \<open>cout\<close> collects what the loop
  prints.\<close>

definition sesion_inicial :: sesion where
  "sesion_inicial = \<lparr>miCarga = ListaDeCarga_nueva, miRotor = RotorDeMapeo_nuevo, cout = []\<rparr>"

text \<open>The message of \<^verbatim>\<open>main\<close> for a line without a frame; the accented letter is the two
  bytes of its UTF-8 encoding.\<close>

definition trama_invalida :: string where
  "trama_invalida = '' -> Trama inv'' @ [CHR 0xC3, CHR 0xA1] @ ''lida. Se ignora.'' @ endl"

text \<open>The body of the loop for one line that \<^verbatim>\<open>leerLinea\<close> has delivered.\<close>

definition paso :: "string \<Rightarrow> sesion \<Rightarrow> sesion option" where
  "paso linea s =
     (let recibida = ''Trama recibida: ['' @ cstr linea @ ''] ''
      in case parseLinea linea of
           (m, None) \<Rightarrow> Some (s\<lparr>cout := cout s @ recibida @ m @ trama_invalida\<rparr>)
         | (m, Some trama) \<Rightarrow>
             (case procesar trama (miCarga s) (miRotor s) of
                None \<Rightarrow> None
              | Some (carga1, rotor1, m1) \<Rightarrow>
                  Some \<lparr>miCarga = carga1, miRotor = rotor1,
                        cout = cout s @ recibida @ m @ m1 @ endl\<rparr>))"

text \<open>The loop, over the lines that \<^verbatim>\<open>leerLinea\<close> delivers until it returns false.\<close>

fun ejecutar :: "string list \<Rightarrow> sesion \<Rightarrow> sesion option" where
  "ejecutar [] s = Some s"
| "ejecutar (linea # ls) s =
     (case paso linea s of None \<Rightarrow> None | Some s1 \<Rightarrow> ejecutar ls s1)"

subsection \<open>Sequences of operations and observations\<close>

text \<open>A sequence of calls of \<^verbatim>\<open>rotar\<close>: the rotor states the class can reach are
  \<open>rotar_varias ns RotorDeMapeo_nuevo\<close>, since \<^verbatim>\<open>rotar\<close> is its only mutator.\<close>

fun rotar_varias :: "int list \<Rightarrow> RotorDeMapeo \<Rightarrow> RotorDeMapeo option" where
  "rotar_varias [] R = Some R"
| "rotar_varias (n # ns) R =
     (case rotar n R of None \<Rightarrow> None | Some (R1, m) \<Rightarrow> rotar_varias ns R1)"

text \<open>The offset of the rotor: the position in the alphabet of the letter at \<^verbatim>\<open>head\<close>.\<close>

definition offset :: "RotorDeMapeo \<Rightarrow> int option" where
  "offset R =
     (case rm_head R of
        None \<Rightarrow> None
      | Some a \<Rightarrow>
          if a < length (rm_nodos R)
          then Some (int (of_char (nr_c (rm_nodos R ! a))) - 65) else None)"

text \<open>The dispatch of \<^verbatim>\<open>main\<close> on a sequence of frames: \<^verbatim>\<open>procesar\<close> on each, in order.\<close>

fun procesar_todas ::
  "Trama list \<Rightarrow> ListaDeCarga \<Rightarrow> RotorDeMapeo \<Rightarrow> (ListaDeCarga \<times> RotorDeMapeo) option" where
  "procesar_todas [] carga rotor = Some (carga, rotor)"
| "procesar_todas (t # ts) carga rotor =
     (case procesar t carga rotor of
        None \<Rightarrow> None
      | Some (carga1, rotor1, m) \<Rightarrow> procesar_todas ts carga1 rotor1)"

text \<open>The characters a sequence of frames is expected to add: for each \<^verbatim>\<open>L\<close> frame the
  output of \<^verbatim>\<open>getMapeo\<close> on the rotor as the \<^verbatim>\<open>M\<close> frames before it have left it.\<close>

fun esperado :: "Trama list \<Rightarrow> RotorDeMapeo \<Rightarrow> string" where
  "esperado [] R = []"
| "esperado (TramaLoad x # ts) R =
     (case getMapeo x R of None \<Rightarrow> [] | Some d \<Rightarrow> d # esperado ts R)"
| "esperado (TramaMap n # ts) R =
     (case rotar n R of None \<Rightarrow> [] | Some (R1, m) \<Rightarrow> esperado ts R1)"

definition es_load :: "Trama \<Rightarrow> bool" where
  "es_load t = (case t of TramaLoad x \<Rightarrow> True | TramaMap n \<Rightarrow> False)"

text \<open>The frames that a list of lines parses to, in the order of the lines.\<close>

definition tramas_de :: "string list \<Rightarrow> Trama list" where
  "tramas_de ls =
     concat (map (\<lambda>l. case snd (parseLinea l) of None \<Rightarrow> [] | Some t \<Rightarrow> [t]) ls)"

definition es_mayuscula :: "char \<Rightarrow> bool" where
  "es_mayuscula x = (65 \<le> (of_char x :: nat) \<and> (of_char x :: nat) \<le> 90)"

definition es_minuscula :: "char \<Rightarrow> bool" where
  "es_minuscula x = (97 \<le> (of_char x :: nat) \<and> (of_char x :: nat) \<le> 122)"

text \<open>The \<^verbatim>\<open>M\<close> line as the specification words it, to compare with \<open>parseLinea\<close>: the
  trimmed line is split at its first comma only, everything after that comma is the
  argument, and the argument is trimmed and read by \<^verbatim>\<open>atoi\<close>.\<close>

definition spec_argumento :: "string \<Rightarrow> string" where
  "spec_argumento l = drop 1 (dropWhile (\<lambda>x. x \<noteq> CHR '','') (trim l))"

definition spec_delta :: "string \<Rightarrow> int" where
  "spec_delta l = atoi (trim (spec_argumento l))"

subsection \<open>Closed forms of the reachable heaps\<close>

text \<open>The ring that the constructor of the rotor builds: node \<open>i\<close> holds the \<open>i\<close>-th letter
  and points to its two neighbours modulo 26.\<close>

definition nodo_anillo :: "nat \<Rightarrow> NodoRotor" where
  "nodo_anillo i =
     \<lparr>nr_c = char_of (65 + i), nr_prev = Some ((i + 25) mod 26), nr_next = Some ((i + 1) mod 26)\<rparr>"

definition anillo :: "NodoRotor list" where
  "anillo = map nodo_anillo [0 ..< 26]"

definition rotor_en :: "nat \<Rightarrow> RotorDeMapeo" where
  "rotor_en h = \<lparr>rm_nodos = anillo, rm_head = Some h, rm_size = 26\<rparr>"

definition mayuscula :: "char \<Rightarrow> char" where
  "mayuscula x = (if 97 \<le> (of_char x :: nat) \<and> (of_char x :: nat) \<le> 122
                  then char_of ((of_char x :: nat) - 97 + 65) else x)"

text \<open>The shift cipher that \<^verbatim>\<open>getMapeo\<close> computes when \<^verbatim>\<open>head\<close> is at node \<open>h\<close>.\<close>

definition cesar :: "nat \<Rightarrow> char \<Rightarrow> char" where
  "cesar h x =
     (if x = CHR '' '' then CHR '' ''
      else if (of_char (mayuscula x) :: nat) < 65 \<or> (of_char (mayuscula x) :: nat) > 90
      then mayuscula x
      else char_of (65 + (h + ((of_char (mayuscula x) :: nat) - 65)) mod 26))"

text \<open>The chain that \<^verbatim>\<open>insertarAlFinal\<close> builds for the characters \<open>m\<close>: node \<open>i\<close> holds
  \<open>m ! i\<close> and points to its neighbours, with \<^verbatim>\<open>nullptr\<close> at the two ends.\<close>

definition nodo_cadena :: "string \<Rightarrow> nat \<Rightarrow> NodoCarga" where
  "nodo_cadena m i =
     \<lparr>nc_dato = m ! i, nc_prev = (if i = 0 then None else Some (i - 1)),
      nc_next = (if Suc i = length m then None else Some (Suc i))\<rparr>"

definition lista_de :: "string \<Rightarrow> ListaDeCarga" where
  "lista_de m =
     \<lparr>lc_nodos = map (nodo_cadena m) [0 ..< length m],
      lc_head = (if m = [] then None else Some 0),
      lc_tail = (if m = [] then None else Some (length m - 1))\<rparr>"

definition sesion_ok :: "sesion \<Rightarrow> bool" where
  "sesion_ok s = (\<exists>m h. h < 26 \<and> miCarga s = lista_de m \<and> miRotor s = rotor_en h)"

section \<open>The reachable heaps\<close>

text \<open>
  The constructor of the rotor builds the ring \<open>anillo\<close>, and \<^verbatim>\<open>rotar\<close> only moves \<^verbatim>\<open>head\<close> along
  it: every rotor the program reaches is \<open>rotor_en h\<close> for some \<open>h < 26\<close>. Every list it
  reaches is \<open>lista_de m\<close> for the characters \<open>m\<close> inserted so far. On these heaps no
  pointer is null or dangling where the code follows it, so every operation returns.
\<close>

subsection \<open>The rotor and the list\<close>

lemma rotor_nuevo_eq: "RotorDeMapeo_nuevo = rotor_en 0"
  by code_simp

lemma length_anillo: "length anillo = 26"
  by (simp add: anillo_def)

lemma nth_anillo: "i < 26 \<Longrightarrow> anillo ! i = nodo_anillo i"
  unfolding anillo_def by (simp del: upt_Suc)

lemma avanzar_anillo: "h < 26 \<Longrightarrow> avanzar k anillo (Some h) = Some (Some ((h + k) mod 26))"
proof (induction k arbitrary: h)
  case 0
  then show ?case by simp
next
  case (Suc k)
  have "(h + 1) mod 26 < 26" by simp
  from Suc.IH [OF this] Suc.prems show ?case
    by (simp add: length_anillo nth_anillo nodo_anillo_def mod_simps)
qed

lemma letras_desde_anillo:
  "h < 26 \<Longrightarrow> \<exists>m. letras_desde k anillo (Some h) = Some m"
proof (induction k arbitrary: h)
  case 0
  then show ?case by simp
next
  case (Suc k)
  have "(h + 1) mod 26 < 26" by simp
  from Suc.IH [OF this] Suc.prems show ?case
    by (auto simp add: length_anillo nth_anillo nodo_anillo_def)
qed

lemma rem_c_pos:
  assumes "0 < b"
  shows "rem_c a b = (if 0 \<le> a \<or> a mod b = 0 then a mod b else a mod b - b)"
proof (cases "0 \<le> a")
  case True
  with assms show ?thesis
    by (cases "a = 0") (simp_all add: rem_c_def)
next
  case False
  with assms show ?thesis
    by (simp add: rem_c_def zmod_zminus1_eq_if)
qed

lemma efectivo_mod:
  assumes "0 < b" shows "efectivo a b = a mod b"
proof -
  have lt: "a mod b < b" and ge: "\<not> a mod b < 0"
    using assms by (simp_all add: not_less)
  then show ?thesis
    using assms by (simp add: efectivo_def rem_c_pos Let_def)
qed

lemma rotar_rotor_en:
  "h < 26 \<Longrightarrow> \<exists>m. rotar n (rotor_en h) = Some (rotor_en ((h + nat (n mod 26)) mod 26), m)"
  by (simp add: rotar_def rotor_en_def efectivo_mod avanzar_anillo Let_def)

lemma getMapeo_rotor_en: "h < 26 \<Longrightarrow> getMapeo x (rotor_en h) = Some (cesar h x)"
  unfolding getMapeo_def Let_def mayuscula_def [symmetric]
  by (simp add: rotor_en_def cesar_def avanzar_anillo length_anillo nth_anillo nodo_anillo_def)

lemma imprimirEstado_rotor_en: "h < 26 \<Longrightarrow> \<exists>m. imprimirEstado (rotor_en h) = Some m"
  using letras_desde_anillo [of h 26] by (auto simp add: imprimirEstado_def rotor_en_def)

lemma lista_nueva_eq: "ListaDeCarga_nueva = lista_de []"
  by (simp add: ListaDeCarga_nueva_def lista_de_def)

lemma insertar_lista_de: "insertarAlFinal d (lista_de m) = Some (lista_de (m @ [d]))"
proof (cases m rule: rev_cases)
  case Nil
  then show ?thesis
    by (simp add: insertarAlFinal_def lista_de_def nodo_cadena_def)
next
  case (snoc ys y)
  define st where "st = map (nodo_cadena m) [0 ..< length m] @ [\<lparr>nc_dato = d, nc_prev = None, nc_next = None\<rparr>]"
  define st1 where "st1 = st[length ys := (st ! length ys)\<lparr>nc_next := Some (length m)\<rparr>]"
  have a: "(st ! length ys)\<lparr>nc_next := Some (length m)\<rparr> = nodo_cadena (m @ [d]) (length ys)"
    using snoc by (simp add: st_def nth_append nodo_cadena_def del: upt_Suc)
  have b: "(st1 ! length m)\<lparr>nc_prev := Some (length ys)\<rparr> = nodo_cadena (m @ [d]) (length m)"
    using snoc by (simp add: st1_def st_def nth_append nodo_cadena_def del: upt_Suc)
  have c: "st1[length m := nodo_cadena (m @ [d]) (length m)] = map (nodo_cadena (m @ [d])) [0 ..< Suc (length m)]"
    unfolding st1_def a st_def
    using snoc by (intro nth_equalityI) (auto simp: nth_list_update nth_append nodo_cadena_def simp del: upt_Suc)
  have "insertarAlFinal d (lista_de m)
          = Some \<lparr>lc_nodos = st1[length m := (st1 ! length m)\<lparr>nc_prev := Some (length ys)\<rparr>],
                   lc_head = Some 0, lc_tail = Some (length m)\<rparr>"
    using snoc by (simp add: insertarAlFinal_def lista_de_def Let_def st1_def st_def del: upt_Suc)
  also have "\<dots> = Some (lista_de (m @ [d]))"
    unfolding b c by (simp add: lista_de_def)
  finally show ?thesis .
qed

lemma recorrer_cadena:
  "i \<le> length m \<Longrightarrow> length m - i \<le> k \<Longrightarrow>
   recorrer k (map (nodo_cadena m) [0 ..< length m]) (if i = length m then None else Some i) = Some (drop i m)"
proof (induction k arbitrary: i)
  case 0
  then show ?case by simp
next
  case (Suc k)
  show ?case
  proof (cases "i = length m")
    case True
    then show ?thesis by simp
  next
    case False
    with Suc.prems have lt: "i < length m" by simp
    then have "Suc i \<le> length m" "length m - Suc i \<le> k" using Suc.prems by simp_all
    moreover have "drop i m = m ! i # drop (Suc i) m"
      using lt by (simp add: Cons_nth_drop_Suc)
    ultimately show ?thesis
      using Suc.IH [of "Suc i"] lt
      by (cases "Suc i = length m") (simp_all add: nodo_cadena_def del: upt_Suc)
  qed
qed

lemma contenido_lista_de: "contenido (lista_de m) = Some m"
  using recorrer_cadena [of 0 m "length m"]
  by (cases "m = []") (simp_all add: contenido_def lista_de_def del: upt_Suc)

lemma imprimirMensaje_lista_de: "\<exists>t. imprimirMensaje (lista_de m) = Some t"
  by (simp add: imprimirMensaje_def contenido_lista_de)

subsection \<open>The dispatch\<close>

lemma rotar_varias_rotor_en:
  "h < 26 \<Longrightarrow> \<exists>h'. h' < 26 \<and> rotar_varias ns (rotor_en h) = Some (rotor_en h')"
proof (induction ns arbitrary: h)
  case Nil
  then show ?case by auto
next
  case (Cons n ns)
  obtain m where "rotar n (rotor_en h) = Some (rotor_en ((h + nat (n mod 26)) mod 26), m)"
    using rotar_rotor_en [OF Cons.prems] by blast
  moreover have "(h + nat (n mod 26)) mod 26 < 26" by simp
  ultimately show ?case using Cons.IH by simp
qed

lemma alcanzable_rotor:
  "\<exists>h. h < 26 \<and> rotar_varias ns RotorDeMapeo_nuevo = Some (rotor_en h)"
  using rotar_varias_rotor_en [of 0 ns] by (simp add: rotor_nuevo_eq)

lemma offset_rotor_en: "h < 26 \<Longrightarrow> offset (rotor_en h) = Some (int h)"
  by (simp add: offset_def rotor_en_def length_anillo nth_anillo nodo_anillo_def)

lemma procesar_load_ok:
  assumes "h < 26"
  shows "\<exists>t. procesar (TramaLoad x) (lista_de m) (rotor_en h) = Some (lista_de (m @ [cesar h x]), rotor_en h, t)"
proof -
  obtain t where "imprimirMensaje (lista_de (m @ [cesar h x])) = Some t"
    using imprimirMensaje_lista_de by blast
  then show ?thesis
    using assms by (simp add: getMapeo_rotor_en insertar_lista_de)
qed

lemma procesar_map_ok:
  assumes "h < 26"
  shows "\<exists>t. procesar (TramaMap n) (lista_de m) (rotor_en h) = Some (lista_de m, rotor_en ((h + nat (n mod 26)) mod 26), t)"
proof -
  obtain t1 where a: "rotar n (rotor_en h) = Some (rotor_en ((h + nat (n mod 26)) mod 26), t1)"
    using rotar_rotor_en [OF assms] by blast
  have "(h + nat (n mod 26)) mod 26 < 26" by simp
  then obtain t2 where "imprimirEstado (rotor_en ((h + nat (n mod 26)) mod 26)) = Some t2"
    using imprimirEstado_rotor_en by blast
  with a show ?thesis by simp
qed

lemma procesar_todas_ok:
  "h < 26 \<Longrightarrow> \<exists>h'. h' < 26 \<and> procesar_todas ts (lista_de m) (rotor_en h) = Some (lista_de (m @ esperado ts (rotor_en h)), rotor_en h')"
proof (induction ts arbitrary: m h)
  case Nil
  then show ?case by auto
next
  case (Cons t ts)
  show ?case
  proof (cases t)
    case (TramaLoad x)
    obtain u where "procesar (TramaLoad x) (lista_de m) (rotor_en h) = Some (lista_de (m @ [cesar h x]), rotor_en h, u)"
      using procesar_load_ok [OF Cons.prems] by blast
    then show ?thesis
      using Cons.IH [OF Cons.prems, of "m @ [cesar h x]"] Cons.prems TramaLoad
      by (simp add: getMapeo_rotor_en)
  next
    case (TramaMap n)
    let ?h1 = "(h + nat (n mod 26)) mod 26"
    have h1: "?h1 < 26" by simp
    obtain u where "procesar (TramaMap n) (lista_de m) (rotor_en h) = Some (lista_de m, rotor_en ?h1, u)"
      using procesar_map_ok [OF Cons.prems] by blast
    moreover obtain v where "rotar n (rotor_en h) = Some (rotor_en ?h1, v)"
      using rotar_rotor_en [OF Cons.prems] by blast
    ultimately show ?thesis
      using Cons.IH [OF h1, of m] TramaMap by simp
  qed
qed

lemma length_esperado:
  "h < 26 \<Longrightarrow> length (esperado ts (rotor_en h)) = length (filter es_load ts)"
proof (induction ts arbitrary: h)
  case Nil
  then show ?case by simp
next
  case (Cons t ts)
  show ?case
  proof (cases t)
    case (TramaLoad x)
    with Cons show ?thesis
      by (simp add: getMapeo_rotor_en es_load_def)
  next
    case (TramaMap n)
    let ?h1 = "(h + nat (n mod 26)) mod 26"
    have h1: "?h1 < 26" by simp
    obtain v where "rotar n (rotor_en h) = Some (rotor_en ?h1, v)"
      using rotar_rotor_en [OF Cons.prems] by blast
    with Cons.IH [OF h1] TramaMap show ?thesis
      by (simp add: es_load_def)
  qed
qed

lemma procesar_todas_append:
  "procesar_todas (fs @ gs) c r =
     (case procesar_todas fs c r of None \<Rightarrow> None | Some (c1, r1) \<Rightarrow> procesar_todas gs c1 r1)"
  by (induction fs arbitrary: c r) (auto split: option.splits)

lemma sesion_okI: "h < 26 \<Longrightarrow> miCarga s = lista_de m \<Longrightarrow> miRotor s = rotor_en h \<Longrightarrow> sesion_ok s"
  unfolding sesion_ok_def by blast

lemma paso_ok:
  assumes "sesion_ok s"
  shows "\<exists>s1. paso l s = Some s1 \<and> sesion_ok s1
     \<and> procesar_todas (case snd (parseLinea l) of None \<Rightarrow> [] | Some t \<Rightarrow> [t]) (miCarga s) (miRotor s) = Some (miCarga s1, miRotor s1)"
proof -
  from assms obtain m h where h: "h < 26" and c: "miCarga s = lista_de m" and r: "miRotor s = rotor_en h"
    unfolding sesion_ok_def by blast
  obtain u t where p: "parseLinea l = (u, t)" by (cases "parseLinea l")
  show ?thesis
  proof (cases t)
    case None
    with p assms show ?thesis by (simp add: paso_def Let_def sesion_ok_def)
  next
    case (Some f)
    show ?thesis
    proof (cases f)
      case (TramaLoad x)
      obtain v where "procesar (TramaLoad x) (lista_de m) (rotor_en h) = Some (lista_de (m @ [cesar h x]), rotor_en h, v)"
        using procesar_load_ok [OF h] by blast
      with p Some TramaLoad h c r show ?thesis
        by (auto simp add: paso_def Let_def simp del: procesar.simps intro: sesion_okI [OF h])
    next
      case (TramaMap n)
      obtain v where "procesar (TramaMap n) (lista_de m) (rotor_en h) = Some (lista_de m, rotor_en ((h + nat (n mod 26)) mod 26), v)"
        using procesar_map_ok [OF h] by blast
      moreover have "sesion_ok \<lparr>miCarga = lista_de m, miRotor = rotor_en ((h + nat (n mod 26)) mod 26), cout = w\<rparr>" for w
        by (rule sesion_okI [of "(h + nat (n mod 26)) mod 26" _ m]) simp_all
      ultimately show ?thesis using p Some TramaMap h c r 
        by (auto simp add: paso_def Let_def simp del: procesar.simps)
    qed
  qed
qed

lemma ejecutar_ok:
  "sesion_ok s \<Longrightarrow> \<exists>s1. ejecutar ls s = Some s1 \<and> sesion_ok s1
     \<and> procesar_todas (tramas_de ls) (miCarga s) (miRotor s) = Some (miCarga s1, miRotor s1)"
proof (induction ls arbitrary: s)
  case Nil
  then show ?case by (simp add: tramas_de_def)
next
  case (Cons l ls)
  obtain s1 where a: "paso l s = Some s1" "sesion_ok s1"
    "procesar_todas (case snd (parseLinea l) of None \<Rightarrow> [] | Some t \<Rightarrow> [t]) (miCarga s) (miRotor s) = Some (miCarga s1, miRotor s1)"
    using paso_ok [OF Cons.prems] by blast
  obtain s2 where b: "ejecutar ls s1 = Some s2" "sesion_ok s2"
    "procesar_todas (tramas_de ls) (miCarga s1) (miRotor s1) = Some (miCarga s2, miRotor s2)"
    using Cons.IH [OF a(2)] by blast
  have "tramas_de (l # ls) = (case snd (parseLinea l) of None \<Rightarrow> [] | Some t \<Rightarrow> [t]) @ tramas_de ls"
    by (simp add: tramas_de_def)
  with a b show ?case
    by (simp add: procesar_todas_append)
qed

lemma sesion_inicial_ok: "sesion_ok sesion_inicial"
  unfolding sesion_ok_def sesion_inicial_def
  by (rule exI [of _ "[]"], rule exI [of _ 0]) (simp add: lista_nueva_eq rotor_nuevo_eq)

subsection \<open>The cipher of a rotor position\<close>

lemma of_char_cesar:
  assumes "es_mayuscula x"
  shows "(of_char (cesar h x) :: nat) = 65 + (h + (of_char x - 65)) mod 26"
proof -
  have a: "x \<noteq> CHR '' ''" using assms by (auto simp: es_mayuscula_def)
  have b: "mayuscula x = x" using assms by (simp add: mayuscula_def es_mayuscula_def)
  have "(h + (of_char x - 65)) mod 26 < (26::nat)" by simp
  then have c: "65 + (h + (of_char x - 65)) mod 26 < (256::nat)" by linarith
  have "cesar h x = char_of (65 + (h + ((of_char x :: nat) - 65)) mod 26)"
    using assms a b by (simp add: cesar_def es_mayuscula_def)
  then show ?thesis
    using c by (simp only: of_char_of mod_less)
qed

lemma cesar_mayuscula: "es_mayuscula x \<Longrightarrow> es_mayuscula (cesar h x)"
proof -
  assume a: "es_mayuscula x"
  have "(h + (of_char x - 65)) mod 26 < (26::nat)" by simp
  then have "65 + (h + (of_char x - 65)) mod 26 \<le> (90::nat)" by linarith
  then show ?thesis
    unfolding es_mayuscula_def [of "cesar h x"] of_char_cesar [OF a] by simp
qed

lemma mod_suma_inj:
  assumes "i < 26" "j < 26" "(h + i) mod 26 = (h + j) mod (26::nat)"
  shows "i = j"
proof -
  have aux: "a = b" if "a \<le> b" "b < 26" "(h + b) mod 26 = (h + a) mod (26::nat)" for a b
  proof -
    from that have "26 dvd (h + b) - (h + a)"
      by (simp add: mod_eq_dvd_iff_nat)
    then have "26 dvd b - a" by simp
    moreover have "b - a < 26" using that by simp
    ultimately have "b - a = 0"
      using dvd_imp_le [of 26 "b - a"] by (cases "b - a = 0") simp_all
    with that show ?thesis by simp
  qed
  show ?thesis
  proof (cases "i \<le> j")
    case True
    with assms show ?thesis using aux [of i j] by simp
  next
    case False
    with assms show ?thesis using aux [of j i] by simp
  qed
qed

lemma cesar_inj:
  assumes "es_mayuscula x" "es_mayuscula y" "cesar h x = cesar h y"
  shows "x = y"
proof -
  define i where "i = (of_char x :: nat) - 65"
  define j where "j = (of_char y :: nat) - 65"
  have ij: "i < 26" "j < 26" using assms by (auto simp add: i_def j_def es_mayuscula_def)
  have "65 + (h + i) mod 26 = 65 + (h + j) mod 26"
    using of_char_cesar [OF assms(1), of h] of_char_cesar [OF assms(2), of h] assms(3)
    by (simp only: i_def j_def)
  then have "(h + i) mod 26 = (h + j) mod 26" by simp
  with ij have "i = j" by (rule mod_suma_inj)
  moreover have "65 \<le> (of_char x :: nat)" "65 \<le> (of_char y :: nat)"
    using assms by (simp_all add: es_mayuscula_def)
  ultimately have "(of_char x :: nat) = of_char y"
    unfolding i_def j_def by linarith
  then show ?thesis by simp
qed

lemma cesar_bij: "bij_betw (cesar h) {x. es_mayuscula x} {x. es_mayuscula x}"
proof -
  have fin: "finite {x. es_mayuscula x}" by (rule finite)
  have inj: "inj_on (cesar h) {x. es_mayuscula x}"
    by (rule inj_onI) (simp add: cesar_inj)
  have sub: "cesar h ` {x. es_mayuscula x} \<subseteq> {x. es_mayuscula x}"
    by (auto simp: cesar_mayuscula)
  have "cesar h ` {x. es_mayuscula x} = {x. es_mayuscula x}"
    by (rule endo_inj_surj [OF fin sub inj])
  with inj show ?thesis
    unfolding bij_betw_def by (rule conjI)
qed

lemma cesar_otro:
  assumes "\<not> es_mayuscula x" "\<not> es_minuscula x"
  shows "cesar h x = x"
proof -
  have m: "mayuscula x = x"
    using assms(2) by (auto simp add: mayuscula_def es_minuscula_def)
  have "(of_char x :: nat) < 65 \<or> 90 < (of_char x :: nat)"
    using assms(1) by (auto simp add: es_mayuscula_def)
  then show ?thesis
    by (simp add: cesar_def m)
qed

lemma cesar_espacio: "cesar h CHR '' '' = CHR '' ''"
  by (simp add: cesar_def)

section \<open>The parser\<close>

subsection \<open>Tokens and trimming\<close>

lemma strtok_token:
  assumes "t \<noteq> []" "CHR '','' \<notin> set t"
  shows "strtok (t @ CHR '','' # r) = Some (t, r)"
proof -
  obtain a u where t: "t = a # u" using assms(1) by (cases t) auto
  with assms(2) have a: "a \<noteq> CHR '',''" by auto
  have d: "dropWhile (\<lambda>x. x = CHR '','') (t @ CHR '','' # r) = t @ CHR '','' # r"
    using a by (simp add: t)
  have tk: "takeWhile (\<lambda>x. x \<noteq> CHR '','') (t @ CHR '','' # r) = t"
    using assms(2) by (auto simp add: takeWhile_tail takeWhile_eq_all_conv [THEN iffD2])
  have dr: "dropWhile (\<lambda>x. x \<noteq> CHR '','') (t @ CHR '','' # r) = CHR '','' # r"
    using assms(2) by (subst dropWhile_append2) auto
  show ?thesis
    unfolding strtok_def Let_def d tk dr using t by simp
qed

lemma strtok_ultimo:
  assumes "t \<noteq> []" "CHR '','' \<notin> set t"
  shows "strtok t = Some (t, [])"
proof -
  obtain a u where t: "t = a # u" using assms(1) by (cases t) auto
  with assms(2) have a: "a \<noteq> CHR '',''" by auto
  have d: "dropWhile (\<lambda>x. x = CHR '','') t = t"
    using a by (simp add: t)
  have tk: "takeWhile (\<lambda>x. x \<noteq> CHR '','') t = t"
    using assms(2) by (auto simp add: takeWhile_eq_all_conv [THEN iffD2])
  have dr: "dropWhile (\<lambda>x. x \<noteq> CHR '','') t = []"
    using assms(2) by (auto simp add: dropWhile_eq_Nil_conv [THEN iffD2])
  show ?thesis
    unfolding strtok_def Let_def d tk dr using t by simp
qed

lemma strtok_campo:
  assumes "t \<noteq> []" "CHR '','' \<notin> set t" "r = [] \<or> hd r = CHR '',''"
  shows "strtok (t @ r) = Some (t, tl r)"
proof (cases r)
  case Nil
  with assms show ?thesis by (simp add: strtok_ultimo)
next
  case (Cons x u)
  with assms have "x = CHR '',''" by simp
  with Cons assms show ?thesis by (simp add: strtok_token)
qed

lemma strtok_comas: "strtok (replicate k CHR '','' @ s) = strtok s"
proof -
  have "dropWhile (\<lambda>x. x = CHR '','') (replicate k CHR '','' @ s) = dropWhile (\<lambda>x. x = CHR '','') s"
    by (rule dropWhile_append2) simp
  then show ?thesis
    by (simp only: strtok_def)
qed

lemma strtok_solo_comas: "strtok (replicate k CHR '','') = None"
  by (simp add: strtok_def dropWhile_eq_Nil_conv [THEN iffD2])



lemma trim_espacios: "(\<And>x. x \<in> set s \<Longrightarrow> isspace x) \<Longrightarrow> trim s = []"
  by (simp add: trim_def dropWhile_eq_Nil_conv [THEN iffD2])


lemma es_token_L:
  "t \<noteq> [] \<Longrightarrow> ((hd t = CHR ''L'' \<or> hd t = CHR ''l'') \<and> tl t = []) = (t = ''L'' \<or> t = ''l'')"
  by (cases t) auto

lemma es_token_M:
  "t \<noteq> [] \<Longrightarrow> ((hd t = CHR ''M'' \<or> hd t = CHR ''m'') \<and> tl t = []) = (t = ''M'' \<or> t = ''m'')"
  by (cases t) auto

lemma parseLinea_forma:
  assumes "strtok (trim (take 127 (cstr l))) = Some (tok, r)" "trim tok \<noteq> []"
  shows "parseLinea l =
    (if trim tok = ''L'' \<or> trim tok = ''l'' then
       (case strtok r of
          None \<Rightarrow> (''Trama L sin argumento.'' @ endl, None)
        | Some (arg0, r1) \<Rightarrow>
            if trim arg0 \<noteq> [] \<and> (hd (trim arg0) = CHR ''S'' \<or> hd (trim arg0) = CHR ''s'')
                 \<and> strcasecmp_eq (trim arg0) ''Space''
            then ([], Some (TramaLoad CHR '' ''))
            else if trim arg0 \<noteq> [] then ([], Some (TramaLoad (hd (trim arg0))))
            else ([], None))
     else if trim tok = ''M'' \<or> trim tok = ''m'' then
       (case strtok r of
          None \<Rightarrow> (''Trama M sin argumento.'' @ endl, None)
        | Some (arg0, r1) \<Rightarrow> ([], Some (TramaMap (atoi (trim arg0)))))
     else (''Tipo de trama desconocido: '' @ trim tok @ endl, None))"
proof -
  have b: "trim (take 127 (cstr l)) \<noteq> []"
    using assms(1) by (auto simp add: strtok_def)
  have len: "a = []" if "\<not> Suc 0 < length a" "length a \<noteq> Suc 0" for a :: string
    using that by (cases a) auto
  show ?thesis
    unfolding parseLinea_def Let_def
    using b assms es_token_L [OF assms(2)] es_token_M [OF assms(2)]
    by (auto split: option.splits dest: len)
qed

subsection \<open>The shapes of a line\<close>

text \<open>
  What \<open>parseLinea\<close> returns for a buffer of a given shape: a type token, the commas after
  it and the field that follows them.
\<close>

lemma isdigit_no_espacio: "isdigit d \<Longrightarrow> \<not> isspace d"
  by (auto simp add: isdigit_def isspace_def)

lemma isdigit_no_signo: "isdigit d \<Longrightarrow> d \<noteq> CHR ''-'' \<and> d \<noteq> CHR ''+''"
  by (auto simp add: isdigit_def)

lemma takeWhile_digitos:
  assumes "\<And>d. d \<in> set ds \<Longrightarrow> isdigit d" "\<not> isdigit x"
  shows "takeWhile isdigit (ds @ x # r) = ds \<and> takeWhile isdigit ds = ds"
  using assms by (simp add: takeWhile_tail takeWhile_eq_all_conv [THEN iffD2])

lemma coma_no_espacio: "\<not> isspace CHR '',''"
  by (simp add: isspace_def)

lemma nul_no_espacio: "\<not> isspace CHR 0x00"
  by (simp add: isspace_def)

lemma strtol10_digitos:
  assumes "ds \<noteq> []" "\<And>d. d \<in> set ds \<Longrightarrow> isdigit d" "\<not> isdigit x"
  shows "strtol10 (ds @ x # r) = strtol10 ds"
proof -
  obtain d u where ds: "ds = d # u" using assms(1) by (cases ds) auto
  then have d: "isdigit d" using assms(2) by simp
  have a: "dropWhile isspace (ds @ x # r) = ds @ x # r" "dropWhile isspace ds = ds"
    using isdigit_no_espacio [OF d] by (simp_all add: ds)
  have h: "hd (ds @ x # r) = d" "hd ds = d" by (simp_all add: ds)
  have tk: "takeWhile isdigit (ds @ x # r) = ds" "takeWhile isdigit ds = ds"
    using takeWhile_digitos [of ds x r, OF assms(2,3)] by blast+
  show ?thesis
    unfolding strtol10_def Let_def a h
    using isdigit_no_signo [OF d] assms(1) by (simp add: tk)
qed

lemma strtol10_signo:
  assumes "sg = CHR ''-'' \<or> sg = CHR ''+''" "\<And>d. d \<in> set ds \<Longrightarrow> isdigit d" "\<not> isdigit x"
  shows "strtol10 (sg # ds @ x # r) = strtol10 (sg # ds)"
proof -
  have "\<not> isspace sg" using assms(1) by (auto simp add: isspace_def)
  then have a: "dropWhile isspace (sg # ds @ x # r) = sg # ds @ x # r"
      "dropWhile isspace (sg # ds) = sg # ds"
    by simp_all
  have tk: "takeWhile isdigit (ds @ x # r) = ds" "takeWhile isdigit ds = ds"
    using takeWhile_digitos [of ds x r, OF assms(2,3)] by blast+
  show ?thesis
    unfolding strtol10_def Let_def a
    using assms(1) by (auto simp add: tk)
qed

lemma a_int32_0: "a_int32 0 = 0"
  by (simp add: a_int32_def)

lemma atoi_vacio: "atoi [] = 0"
  by (simp add: atoi_def strtol10_def valor_digitos_def a_int32_0)

lemma atoi_sin_digitos:
  assumes "\<not> isspace y" "\<not> isdigit y" "y \<noteq> CHR ''-''" "y \<noteq> CHR ''+''"
  shows "atoi (y # u) = 0"
  using assms by (simp add: atoi_def strtol10_def valor_digitos_def a_int32_0)

lemma atoi_signo_sin_digitos:
  assumes "sg = CHR ''-'' \<or> sg = CHR ''+''" "v = [] \<or> \<not> isdigit (hd v)"
  shows "atoi (sg # v) = 0"
proof -
  have "\<not> isspace sg" using assms(1) by (auto simp add: isspace_def)
  moreover have "takeWhile isdigit v = []"
    using assms(2) by (cases v) auto
  ultimately show ?thesis
    using assms(1) by (auto simp add: atoi_def strtol10_def valor_digitos_def a_int32_0)
qed

lemma parse_M_forma:
  assumes "trim (take 127 (cstr l)) = tok @ replicate (Suc k) CHR '','' @ arg @ resto"
    "CHR '','' \<notin> set tok" "trim tok = ''M'' \<or> trim tok = ''m''"
    "arg \<noteq> []" "CHR '','' \<notin> set arg" "resto = [] \<or> hd resto = CHR '',''"
  shows "parseLinea l = ([], Some (TramaMap (atoi (trim arg))))"
proof -
  have tne: "tok \<noteq> []" using assms(3) by (auto simp add: trim_def)
  have "tok @ replicate (Suc k) CHR '','' @ arg @ resto
          = tok @ CHR '','' # (replicate k CHR '','' @ arg @ resto)" by simp
  then have s1: "strtok (trim (take 127 (cstr l))) = Some (tok, replicate k CHR '','' @ arg @ resto)"
    unfolding assms(1) using strtok_token [OF tne assms(2)] by simp
  have s2: "strtok (replicate k CHR '','' @ arg @ resto) = Some (arg, tl resto)"
    unfolding strtok_comas by (rule strtok_campo [OF assms(4,5,6)])
  have "trim tok \<noteq> []" using assms(3) by auto
  from parseLinea_forma [OF s1 this] assms(3) s2 show ?thesis
    by auto
qed

lemma parse_L_campo_blanco:
  assumes "trim (take 127 (cstr l)) = tok @ replicate (Suc k) CHR '','' @ f @ CHR '','' # resto"
    "CHR '','' \<notin> set tok" "trim tok = ''L'' \<or> trim tok = ''l''"
    "f \<noteq> []" "\<And>x. x \<in> set f \<Longrightarrow> isspace x"
  shows "parseLinea l = ([], None)"
proof -
  have tne: "tok \<noteq> []" using assms(3) by (auto simp add: trim_def)
  have nc: "CHR '','' \<notin> set f"
    using assms(5) [of "CHR '',''"] coma_no_espacio by blast
  have "tok @ replicate (Suc k) CHR '','' @ f @ CHR '','' # resto
          = tok @ CHR '','' # (replicate k CHR '','' @ f @ CHR '','' # resto)" by simp
  then have s1: "strtok (trim (take 127 (cstr l)))
      = Some (tok, replicate k CHR '','' @ f @ CHR '','' # resto)"
    unfolding assms(1) using strtok_token [OF tne assms(2)] by simp
  have s2: "strtok (replicate k CHR '','' @ f @ CHR '','' # resto) = Some (f, resto)"
    unfolding strtok_comas by (rule strtok_token [OF assms(4) nc])
  have tf: "trim f = []" by (rule trim_espacios) (rule assms(5))
  have "trim tok \<noteq> []" using assms(3) by auto
  from parseLinea_forma [OF s1 this] assms(3) s2 tf show ?thesis
    by auto
qed

lemma parse_desconocido:
  assumes "trim (take 127 (cstr l)) = tok @ resto" "CHR '','' \<notin> set tok"
    "resto = [] \<or> hd resto = CHR '',''" "trim tok \<noteq> []"
    "trim tok \<notin> {''L'', ''l'', ''M'', ''m''}"
  shows "parseLinea l = (''Tipo de trama desconocido: '' @ trim tok @ endl, None)"
proof -
  have tne: "tok \<noteq> []" using assms(4) by (auto simp add: trim_def)
  have s1: "strtok (trim (take 127 (cstr l))) = Some (tok, tl resto)"
    unfolding assms(1) by (rule strtok_campo [OF tne assms(2,3)])
  from parseLinea_forma [OF s1 assms(4)] assms(5) show ?thesis
    by auto
qed

lemma parse_sin_argumento:
  assumes "trim (take 127 (cstr l)) = tok @ replicate k CHR '',''" "CHR '','' \<notin> set tok"
    "trim tok \<noteq> []"
  shows "strtok (trim (take 127 (cstr l))) = Some (tok, replicate (k - 1) CHR '','')"
proof -
  have tne: "tok \<noteq> []" using assms(3) by (auto simp add: trim_def)
  have "replicate k CHR '','' = [] \<or> hd (replicate k CHR '','') = CHR '',''"
    by (cases k) auto
  from strtok_campo [OF tne assms(2) this] show ?thesis
    unfolding assms(1) by (cases k) auto
qed

lemma parse_L_sin_argumento:
  assumes "trim (take 127 (cstr l)) = tok @ replicate k CHR '',''" "CHR '','' \<notin> set tok"
    "trim tok = ''L'' \<or> trim tok = ''l''"
  shows "parseLinea l = (''Trama L sin argumento.'' @ endl, None)"
proof -
  have t: "trim tok \<noteq> []" using assms(3) by auto
  from parseLinea_forma [OF parse_sin_argumento [OF assms(1,2) t] t] assms(3) show ?thesis
    by (auto simp add: strtok_solo_comas)
qed

lemma parse_M_sin_argumento:
  assumes "trim (take 127 (cstr l)) = tok @ replicate k CHR '',''" "CHR '','' \<notin> set tok"
    "trim tok = ''M'' \<or> trim tok = ''m''"
  shows "parseLinea l = (''Trama M sin argumento.'' @ endl, None)"
proof -
  have t: "trim tok \<noteq> []" using assms(3) by auto
  from parseLinea_forma [OF parse_sin_argumento [OF assms(1,2) t] t] assms(3) show ?thesis
    by (auto simp add: strtok_solo_comas)
qed

lemma paso_sin_trama:
  assumes "snd (parseLinea l) = None"
  shows "paso l s = Some (s\<lparr>cout := cout s @ ''Trama recibida: ['' @ cstr l @ ''] ''
            @ fst (parseLinea l) @ trama_invalida\<rparr>)"
  using assms by (cases "parseLinea l") (simp add: paso_def)

lemma cstr_espacios:
  assumes "\<And>x. x \<in> set l \<Longrightarrow> isspace x"
  shows "cstr l = l"
proof -
  have "CHR 0x00 \<notin> set l" using assms [of "CHR 0x00"] nul_no_espacio by blast
  then have "\<forall>x\<in>set l. x \<noteq> CHR 0x00" by blast
  then show ?thesis
    unfolding cstr_def by (rule takeWhile_eq_all_conv [THEN iffD2])
qed

lemma parse_blanco:
  assumes "\<And>x. x \<in> set l \<Longrightarrow> isspace x"
  shows "parseLinea l = ([], None)"
proof -
  have "trim (take 127 (cstr l)) = []"
    by (rule trim_espacios) (auto simp add: cstr_espacios [OF assms] dest: in_set_takeD assms)
  then show ?thesis by (simp add: parseLinea_def)
qed





lemma tramas_de_sin_trama:
  "snd (parseLinea l) = None \<Longrightarrow> tramas_de (pre @ l # post) = tramas_de (pre @ post)"
  by (simp add: tramas_de_def)

lemma ejecutar_total: "\<exists>s. ejecutar ls sesion_inicial = Some s"
  using ejecutar_ok [OF sesion_inicial_ok, of ls] by blast

lemma ejecutar_salta:
  assumes "snd (parseLinea l) = None"
  shows "\<exists>s1 s2. ejecutar (pre @ l # post) sesion_inicial = Some s1
     \<and> ejecutar (pre @ post) sesion_inicial = Some s2
     \<and> miCarga s1 = miCarga s2 \<and> miRotor s1 = miRotor s2"
proof -
  obtain s1 where s1: "ejecutar (pre @ l # post) sesion_inicial = Some s1"
    "procesar_todas (tramas_de (pre @ l # post)) (miCarga sesion_inicial) (miRotor sesion_inicial)
       = Some (miCarga s1, miRotor s1)"
    using ejecutar_ok [OF sesion_inicial_ok, of "pre @ l # post"] by blast
  obtain s2 where s2: "ejecutar (pre @ post) sesion_inicial = Some s2"
    "procesar_todas (tramas_de (pre @ post)) (miCarga sesion_inicial) (miRotor sesion_inicial)
       = Some (miCarga s2, miRotor s2)"
    using ejecutar_ok [OF sesion_inicial_ok, of "pre @ post"] by blast
  from s1(2) s2(2) have "miCarga s1 = miCarga s2 \<and> miRotor s1 = miRotor s2"
    unfolding tramas_de_sin_trama [OF assms] by simp
  with s1(1) s2(1) show ?thesis by blast
qed

lemma ejecutar_append:
  "ejecutar (pre @ post) s = (case ejecutar pre s of None \<Rightarrow> None | Some s1 \<Rightarrow> ejecutar post s1)"
  by (induction pre arbitrary: s) (auto split: option.splits)

lemma ejecutar_sin_trama:
  assumes "snd (parseLinea l) = None"
  shows "ejecutar (l # post) s
     = ejecutar post (s\<lparr>cout := cout s @ ''Trama recibida: ['' @ cstr l @ ''] ''
                          @ fst (parseLinea l) @ trama_invalida\<rparr>)"
  by (simp add: paso_sin_trama [OF assms])

lemma ejecutar_sin_trama_en_medio:
  assumes "snd (parseLinea l) = None"
  shows "\<exists>s0. ejecutar pre sesion_inicial = Some s0
     \<and> ejecutar (pre @ l # post) sesion_inicial
         = ejecutar post (s0\<lparr>cout := cout s0 @ ''Trama recibida: ['' @ cstr l @ ''] ''
                               @ fst (parseLinea l) @ trama_invalida\<rparr>)"
proof -
  obtain s0 where s0: "ejecutar pre sesion_inicial = Some s0"
    using ejecutar_total [of pre] by blast
  have "ejecutar (pre @ l # post) sesion_inicial = ejecutar (l # post) s0"
    unfolding ejecutar_append [of pre "l # post"] s0 by simp
  with s0 show ?thesis
    unfolding ejecutar_sin_trama [OF assms] by blast
qed

section \<open>Evaluations\<close>

subsection \<open>The scenario of seven lines\<close>

lemma escenario_A_tres:
  "map_option (\<lambda>s. contenido (miCarga s))
     (ejecutar [''L,H'', ''L,O'', ''L,L''] sesion_inicial) = Some (Some ''HOL'')"
  by code_simp

lemma escenario_A_cuatro:
  "map_option (\<lambda>s. (contenido (miCarga s), offset (miRotor s)))
     (ejecutar [''L,H'', ''L,O'', ''L,L'', ''M,2''] sesion_inicial) = Some (Some ''HOL'', Some 2)"
  by code_simp

lemma escenario_A_siete:
  "map_option (\<lambda>s. contenido (miCarga s))
     (ejecutar [''L,H'', ''L,O'', ''L,L'', ''M,2'', ''L,A'', ''L,Space'', ''L,W''] sesion_inicial)
       = Some (Some ''HOLC Y'')"
  by code_simp

lemma escenario_A_inicio:
  "offset (miRotor sesion_inicial) = Some 0 \<and> contenido (miCarga sesion_inicial) = Some []"
  by code_simp

subsection \<open>Single lines\<close>

lemma parse_M_coma_coma_5: "parseLinea ''M,,5'' = ([], Some (TramaMap 5))"
  by code_simp

lemma parse_M_2_3: "parseLinea ''M,2,3'' = ([], Some (TramaMap 2))"
  by code_simp

lemma parse_M_menos_2: "parseLinea ''M,-2'' = ([], Some (TramaMap (- 2)))"
  by code_simp

lemma parse_m_mas_7x: "parseLinea ''m, +7x'' = ([], Some (TramaMap 7))"
  by code_simp

lemma spec_delta_M_coma_coma_5: "spec_delta ''M,,5'' = 0"
  by code_simp

lemma forma_M_coma_coma_5:
  "trim (take 127 (cstr ''M,,5'')) = ''M'' @ replicate (Suc 1) CHR '','' @ ''5'' @ []"
  by code_simp

lemma trim_M: "trim ''M'' = ''M''"
  by code_simp

lemma trim_L: "trim ''L'' = ''L''"
  by code_simp

lemma trim_X: "trim ''X'' = ''X''"
  by code_simp

lemma paso_blanco_inicial:
  "map_option cout (paso ''   '' sesion_inicial)
     = Some (''Trama recibida: [   ] '' @ '' -> Trama inv'' @ [CHR 0xC3, CHR 0xA1]
               @ ''lida. Se ignora.'' @ [CHR 0x0A])"
  by code_simp

lemma parse_X_1: "parseLinea ''X,1'' = (''Tipo de trama desconocido: X'' @ endl, None)"
  by code_simp

lemma parse_L_coma: "parseLinea ''L,'' = (''Trama L sin argumento.'' @ endl, None)"
  by code_simp

lemma forma_X_1: "trim (take 127 (cstr ''X,1'')) = ''X'' @ '',1''"
  by code_simp

lemma forma_L_coma: "trim (take 127 (cstr ''L,'')) = ''L'' @ replicate 1 CHR '',''"
  by code_simp



lemma parse_L_coma_coma_X: "parseLinea ''L,,X'' = ([], Some (TramaLoad CHR ''X''))"
  by code_simp

lemma parse_L_blanco_X: "parseLinea ''L, ,X'' = ([], None)"
  by code_simp

lemma forma_L_blanco_X:
  "trim (take 127 (cstr ''L, ,X''))
     = ''L'' @ replicate (Suc 0) CHR '','' @ '' '' @ CHR '','' # ''X''"
  by code_simp

lemma sesion_con_invalidas_contenido:
  "map_option (\<lambda>s. contenido (miCarga s))
     (ejecutar [''L,H'', ''X,1'', ''L,'', ''L,O''] sesion_inicial) = Some (Some ''HO'')"
  by code_simp

lemma sesion_con_invalidas_cout:
  "map_option cout (ejecutar [''X,1'', ''L,''] sesion_inicial)
     = Some (''Trama recibida: [X,1] Tipo de trama desconocido: X'' @ [CHR 0x0A]
             @ '' -> Trama inv'' @ [CHR 0xC3, CHR 0xA1] @ ''lida. Se ignora.'' @ [CHR 0x0A]
             @ ''Trama recibida: [L,] Trama L sin argumento.'' @ [CHR 0x0A]
             @ '' -> Trama inv'' @ [CHR 0xC3, CHR 0xA1] @ ''lida. Se ignora.'' @ [CHR 0x0A])"
  by code_simp

section \<open>The claims\<close>

text \<open>
  Claim C1. From the fresh session (rotor at offset 0, empty list) the seven lines
  \<^verbatim>\<open>L,H L,O L,L M,2 L,A L,Space L,W\<close> leave the list holding \<^verbatim>\<open>H O L C space Y\<close> in that
  order. After the first three lines the list is \<^verbatim>\<open>HOL\<close>; the line \<^verbatim>\<open>M,2\<close> moves the rotor
  to offset 2 and leaves \<^verbatim>\<open>HOL\<close> as it was, so the rotation only reaches the \<^verbatim>\<open>L\<close> lines
  that come after it.
\<close>

theorem C1_escenario_A:
  "offset (miRotor sesion_inicial) = Some 0
   \<and> contenido (miCarga sesion_inicial) = Some []
   \<and> map_option (\<lambda>s. contenido (miCarga s))
        (ejecutar [''L,H'', ''L,O'', ''L,L''] sesion_inicial) = Some (Some ''HOL'')
   \<and> map_option (\<lambda>s. (contenido (miCarga s), offset (miRotor s)))
        (ejecutar [''L,H'', ''L,O'', ''L,L'', ''M,2''] sesion_inicial)
          = Some (Some ''HOL'', Some 2)
   \<and> map_option (\<lambda>s. contenido (miCarga s))
        (ejecutar [''L,H'', ''L,O'', ''L,L'', ''M,2'', ''L,A'', ''L,Space'', ''L,W'']
           sesion_inicial) = Some (Some ''HOLC Y'')"
  using escenario_A_inicio escenario_A_tres escenario_A_cuatro escenario_A_siete
  by blast

text \<open>
  Claim C2. For every rotor that a sequence \<open>ns\<close> of \<^verbatim>\<open>rotar\<close> calls reaches from the constructor,
  \<^verbatim>\<open>getMapeo\<close> returns a value for every character (no pointer fault), it is a bijection of
  the letters A to Z onto themselves, it maps the space to the space, and it returns every
  character that is neither a letter (upper or lower case) nor the space unchanged.
\<close>

theorem C2_mapeo_biyectivo:
  "\<exists>R f. rotar_varias ns RotorDeMapeo_nuevo = Some R
     \<and> (\<forall>x. getMapeo x R = Some (f x))
     \<and> bij_betw f {x. es_mayuscula x} {x. es_mayuscula x}
     \<and> f CHR '' '' = CHR '' ''
     \<and> (\<forall>x. \<not> es_mayuscula x \<and> \<not> es_minuscula x \<and> x \<noteq> CHR '' '' \<longrightarrow> f x = x)"
proof -
  obtain h where h: "h < 26" "rotar_varias ns RotorDeMapeo_nuevo = Some (rotor_en h)"
    using alcanzable_rotor by blast
  show ?thesis
  proof (intro exI conjI)
    show "rotar_varias ns RotorDeMapeo_nuevo = Some (rotor_en h)" by (rule h)
    show "\<forall>x. getMapeo x (rotor_en h) = Some (cesar h x)"
      using h by (simp add: getMapeo_rotor_en)
    show "bij_betw (cesar h) {x. es_mayuscula x} {x. es_mayuscula x}" by (rule cesar_bij)
    show "cesar h CHR '' '' = CHR '' ''" by (rule cesar_espacio)
    show "\<forall>x. \<not> es_mayuscula x \<and> \<not> es_minuscula x \<and> x \<noteq> CHR '' '' \<longrightarrow> cesar h x = x"
      by (simp add: cesar_otro)
  qed
qed

text \<open>The claim at the rotations \<open>2, -5\<close> and the character \<^verbatim>\<open>7\<close>.\<close>

theorem C2_witness:
  "\<exists>R. rotar_varias [2, -5] RotorDeMapeo_nuevo = Some R
     \<and> getMapeo CHR ''7'' R = Some CHR ''7''"
proof -
  obtain R f where a: "rotar_varias [2, -5] RotorDeMapeo_nuevo = Some R"
      "\<forall>x. getMapeo x R = Some (f x)"
      "\<forall>x. \<not> es_mayuscula x \<and> \<not> es_minuscula x \<and> x \<noteq> CHR '' '' \<longrightarrow> f x = x"
    using C2_mapeo_biyectivo [of "[2, -5]"] by blast
  have "\<not> es_mayuscula CHR ''7'' \<and> \<not> es_minuscula CHR ''7'' \<and> CHR ''7'' \<noteq> CHR '' ''"
    by (simp add: es_mayuscula_def es_minuscula_def)
  with a(3) have "f CHR ''7'' = CHR ''7''" by blast
  with a(1,2) show ?thesis by simp
qed

text \<open>
  Claim C3. For every integer \<open>n\<close> and every reachable rotor, at offset \<open>d\<close>, \<^verbatim>\<open>rotar(n)\<close>
  returns and leaves the rotor at offset \<open>(d + ((n mod 26) + 26) mod 26) mod 26\<close>. The shift
  it prints, \<^verbatim>\<open>effective\<close>, is \<open>((n mod 26) + 26) mod 26\<close> whether \<open>mod\<close> is read as the
  floored remainder or as the truncating remainder of C, and lies in \<open>[0, 26)\<close>. From the
  fresh rotor \<^verbatim>\<open>rotar(-2)\<close> gives offset 24.
\<close>

theorem C3_desplazamiento_efectivo:
  "\<exists>R d R1 m. rotar_varias ns RotorDeMapeo_nuevo = Some R
     \<and> offset R = Some d \<and> 0 \<le> d \<and> d < 26
     \<and> rotar n R = Some (R1, m)
     \<and> offset R1 = Some ((d + ((n mod 26) + 26) mod 26) mod 26)
     \<and> efectivo n (rm_size R) = ((n mod 26) + 26) mod 26
     \<and> efectivo n (rm_size R) = ((rem_c n 26) + 26) mod 26
     \<and> 0 \<le> efectivo n (rm_size R) \<and> efectivo n (rm_size R) < 26
     \<and> map_option (\<lambda>(R2, m2). offset R2) (rotar (- 2) RotorDeMapeo_nuevo) = Some (Some 24)"
proof -
  obtain h where h: "h < 26" "rotar_varias ns RotorDeMapeo_nuevo = Some (rotor_en h)"
    using alcanzable_rotor by blast
  let ?h1 = "(h + nat (n mod 26)) mod 26"
  obtain m where m: "rotar n (rotor_en h) = Some (rotor_en ?h1, m)"
    using rotar_rotor_en [OF h(1)] by blast
  have h1: "?h1 < 26" by simp
  have e1: "efectivo n 26 = n mod 26" by (simp add: efectivo_mod)
  have e2: "((n mod 26) + 26) mod 26 = n mod 26" by simp
  have e3: "((rem_c n 26) + 26) mod 26 = n mod 26"
    by (simp add: rem_c_pos mod_simps)
  have o1: "int ?h1 = (int h + n mod 26) mod 26"
    by (simp add: zmod_int)
  have last: "map_option (\<lambda>(R2, m2). offset R2) (rotar (- 2) RotorDeMapeo_nuevo) = Some (Some 24)"
    using rotar_rotor_en [of 0 "- 2"] by (auto simp add: rotor_nuevo_eq offset_rotor_en)
  show ?thesis
  proof (intro exI conjI)
    show "rotar_varias ns RotorDeMapeo_nuevo = Some (rotor_en h)" by (rule h)
    show "offset (rotor_en h) = Some (int h)" using h by (simp add: offset_rotor_en)
    show "0 \<le> int h" by simp
    show "int h < 26" using h by simp
    show "rotar n (rotor_en h) = Some (rotor_en ?h1, m)" by (rule m)
    show "offset (rotor_en ?h1) = Some ((int h + ((n mod 26) + 26) mod 26) mod 26)"
      unfolding e2 using offset_rotor_en [OF h1] o1 by simp
    show "efectivo n (rm_size (rotor_en h)) = ((n mod 26) + 26) mod 26"
      using e1 by (simp add: rotor_en_def)
    show "efectivo n (rm_size (rotor_en h)) = ((rem_c n 26) + 26) mod 26"
      using e1 e3 by (simp add: rotor_en_def)
    show "0 \<le> efectivo n (rm_size (rotor_en h))" using e1 by (simp add: rotor_en_def)
    show "efectivo n (rm_size (rotor_en h)) < 26" using e1 by (simp add: rotor_en_def)
    show "map_option (\<lambda>(R2, m2). offset R2) (rotar (- 2) RotorDeMapeo_nuevo) = Some (Some 24)"
      by (rule last)
  qed
qed

text \<open>
  Claim C4. For every integer \<open>n\<close> and every reachable rotor, \<^verbatim>\<open>rotar(n)\<close> followed by
  \<^verbatim>\<open>rotar(-n)\<close> returns a rotor whose \<^verbatim>\<open>getMapeo\<close> agrees with the original one on every
  character; it is the original rotor, head pointer included. The statement is over all
  integers, which include every 32-bit \<^verbatim>\<open>int\<close> whose negation is one too.
\<close>

theorem C4_rotar_ida_y_vuelta:
  "\<exists>R R1 m1 R2 m2. rotar_varias ns RotorDeMapeo_nuevo = Some R
     \<and> rotar n R = Some (R1, m1)
     \<and> rotar (- n) R1 = Some (R2, m2)
     \<and> (\<forall>x. getMapeo x R2 = getMapeo x R \<and> getMapeo x R \<noteq> None)
     \<and> R2 = R"
proof -
  obtain h where h: "h < 26" "rotar_varias ns RotorDeMapeo_nuevo = Some (rotor_en h)"
    using alcanzable_rotor by blast
  let ?h1 = "(h + nat (n mod 26)) mod 26"
  let ?h2 = "(?h1 + nat ((- n) mod 26)) mod 26"
  have h1: "?h1 < 26" by simp
  obtain m1 where m1: "rotar n (rotor_en h) = Some (rotor_en ?h1, m1)"
    using rotar_rotor_en [OF h(1)] by blast
  obtain m2 where m2: "rotar (- n) (rotor_en ?h1) = Some (rotor_en ?h2, m2)"
    using rotar_rotor_en [OF h1] by blast
  have z: "(n mod 26 + (- n) mod 26) mod 26 = 0"
    using mod_add_eq [of n 26 "- n"] by simp
  have p1: "int (nat (n mod 26)) = n mod 26" by simp
  have p2: "int (nat ((- n) mod 26)) = (- n) mod 26" by simp
  have "int ?h2 = ((int h + n mod 26) mod 26 + (- n) mod 26) mod 26"
    by (simp only: zmod_int of_nat_add p1 p2 of_nat_numeral)
  also have "\<dots> = (int h + n mod 26 + (- n) mod 26) mod 26"
    by (simp only: mod_add_left_eq)
  also have "\<dots> = (int h + (n mod 26 + (- n) mod 26)) mod 26"
    by (simp only: add.assoc)
  also have "\<dots> = (int h + 0) mod 26"
  proof (rule mod_add_cong [OF refl])
    show "(n mod 26 + (- n) mod 26) mod 26 = 0 mod 26"
      unfolding z by simp
  qed
  also have "\<dots> = int h"
    using h(1) by simp
  finally have "?h2 = h" by simp
  with m2 have m2': "rotar (- n) (rotor_en ?h1) = Some (rotor_en h, m2)" by simp
  show ?thesis
  proof (intro exI conjI)
    show "rotar_varias ns RotorDeMapeo_nuevo = Some (rotor_en h)" by (rule h)
    show "rotar n (rotor_en h) = Some (rotor_en ?h1, m1)" by (rule m1)
    show "rotar (- n) (rotor_en ?h1) = Some (rotor_en h, m2)" by (rule m2')
    show "\<forall>x. getMapeo x (rotor_en h) = getMapeo x (rotor_en h) \<and> getMapeo x (rotor_en h) \<noteq> None"
      using h by (simp add: getMapeo_rotor_en)
    show "rotor_en h = rotor_en h" by simp
  qed
qed

text \<open>
  Claim C5. For every sequence of frames \<open>fs\<close> processed from the fresh session the list
  holds exactly the outputs of \<^verbatim>\<open>getMapeo\<close> for the \<^verbatim>\<open>L\<close> frames, in order, each computed on
  the rotor as it is when the frame is processed: one character for each \<^verbatim>\<open>L\<close> frame. Processing further frames \<open>gs\<close> keeps
  what the list held as a prefix and appends the outputs for \<open>gs\<close>: nothing is removed,
  replaced or reordered. The same holds for the loop of \<^verbatim>\<open>main\<close> on every list of lines
  \<open>ls\<close>, with the frames the lines parse to.
\<close>

theorem C5_acumulador:
  "\<exists>c r m c1 r1 s.
       procesar_todas fs ListaDeCarga_nueva RotorDeMapeo_nuevo = Some (c, r)
     \<and> contenido c = Some m
     \<and> m = esperado fs RotorDeMapeo_nuevo
     \<and> length m = length (filter es_load fs)
     \<and> procesar_todas (fs @ gs) ListaDeCarga_nueva RotorDeMapeo_nuevo = Some (c1, r1)
     \<and> contenido c1 = Some (m @ esperado gs r)
     \<and> ejecutar ls sesion_inicial = Some s
     \<and> contenido (miCarga s) = Some (esperado (tramas_de ls) RotorDeMapeo_nuevo)"
proof -
  obtain h where h: "h < 26"
    "procesar_todas fs (lista_de []) (rotor_en 0) = Some (lista_de ([] @ esperado fs (rotor_en 0)), rotor_en h)"
    using procesar_todas_ok [of 0 fs "[]"] by auto
  obtain h1 where h1: "h1 < 26"
    "procesar_todas gs (lista_de (esperado fs (rotor_en 0))) (rotor_en h)
       = Some (lista_de (esperado fs (rotor_en 0) @ esperado gs (rotor_en h)), rotor_en h1)"
    using procesar_todas_ok [OF h(1), of gs "esperado fs (rotor_en 0)"] by auto
  obtain s where s: "ejecutar ls sesion_inicial = Some s"
    "procesar_todas (tramas_de ls) (miCarga sesion_inicial) (miRotor sesion_inicial)
       = Some (miCarga s, miRotor s)"
    using ejecutar_ok [OF sesion_inicial_ok, of ls] by blast
  obtain h2 where h2: "h2 < 26"
    "procesar_todas (tramas_de ls) (lista_de []) (rotor_en 0)
       = Some (lista_de ([] @ esperado (tramas_de ls) (rotor_en 0)), rotor_en h2)"
    using procesar_todas_ok [of 0 "tramas_de ls" "[]"] by auto
  have cs: "miCarga s = lista_de (esperado (tramas_de ls) (rotor_en 0))"
    using s(2) h2(2) by (simp add: sesion_inicial_def lista_nueva_eq rotor_nuevo_eq)
  show ?thesis
  proof (intro exI conjI)
    show "procesar_todas fs ListaDeCarga_nueva RotorDeMapeo_nuevo = Some (lista_de (esperado fs (rotor_en 0)), rotor_en h)"
      using h by (simp add: lista_nueva_eq rotor_nuevo_eq)
    show "contenido (lista_de (esperado fs (rotor_en 0))) = Some (esperado fs (rotor_en 0))"
      by (rule contenido_lista_de)
    show "esperado fs (rotor_en 0) = esperado fs RotorDeMapeo_nuevo"
      by (simp add: rotor_nuevo_eq)
    show "length (esperado fs (rotor_en 0)) = length (filter es_load fs)"
      by (rule length_esperado) simp
    show "procesar_todas (fs @ gs) ListaDeCarga_nueva RotorDeMapeo_nuevo
            = Some (lista_de (esperado fs (rotor_en 0) @ esperado gs (rotor_en h)), rotor_en h1)"
      using h h1 by (simp add: procesar_todas_append lista_nueva_eq rotor_nuevo_eq)
    show "contenido (lista_de (esperado fs (rotor_en 0) @ esperado gs (rotor_en h)))
            = Some (esperado fs (rotor_en 0) @ esperado gs (rotor_en h))"
      by (rule contenido_lista_de)
    show "ejecutar ls sesion_inicial = Some s" by (rule s)
    show "contenido (miCarga s) = Some (esperado (tramas_de ls) RotorDeMapeo_nuevo)"
      unfolding cs rotor_nuevo_eq by (rule contenido_lista_de)
  qed
qed

text \<open>
  Claim C6, as stated, fails: the line is not split at its first comma only. \<^verbatim>\<open>strtok\<close>
  skips the empty field of \<^verbatim>\<open>M,,5\<close>, so the argument is \<^verbatim>\<open>5\<close> and the frame carries 5, where
  the reading of the claim (everything after the first comma, \<^verbatim>\<open>,5\<close>) gives 0.
\<close>

theorem C6_contraejemplo:
  "snd (parseLinea ''M,,5'') = Some (TramaMap 5)
   \<and> spec_delta ''M,,5'' = 0
   \<and> snd (parseLinea ''M,,5'') \<noteq> Some (TramaMap (spec_delta ''M,,5''))"
  by (simp add: parse_M_coma_coma_5 spec_delta_M_coma_coma_5)

text \<open>
  Claim C6, amended. The line is taken as the buffer holds it (its first 127 characters,
  trimmed). When the first token trims to \<^verbatim>\<open>M\<close> or \<^verbatim>\<open>m\<close>, the argument is the first
  non-empty field after it: the commas before it are skipped and it ends at the next comma,
  whatever follows being ignored. The argument is trimmed and read by \<^verbatim>\<open>atoi\<close>, which is
  lenient: after an optional sign it reads the digits and stops at the first other
  character, and it gives 0 when there is no digit to read. So \<^verbatim>\<open>M,,5\<close> gives 5 and
  \<^verbatim>\<open>M,2,3\<close> gives 2.
\<close>

theorem C6_trama_M:
  "(trim (take 127 (cstr l)) = tok @ replicate (Suc k) CHR '','' @ arg @ resto
      \<and> CHR '','' \<notin> set tok \<and> (trim tok = ''M'' \<or> trim tok = ''m'')
      \<and> arg \<noteq> [] \<and> CHR '','' \<notin> set arg \<and> (resto = [] \<or> hd resto = CHR '','')
    \<longrightarrow> parseLinea l = ([], Some (TramaMap (atoi (trim arg)))))
   \<and> (ds \<noteq> [] \<and> (\<forall>d\<in>set ds. isdigit d) \<and> \<not> isdigit x
    \<longrightarrow> atoi (ds @ x # r) = atoi ds
      \<and> atoi (CHR ''-'' # ds @ x # r) = atoi (CHR ''-'' # ds)
      \<and> atoi (CHR ''+'' # ds @ x # r) = atoi (CHR ''+'' # ds))
   \<and> atoi [] = 0
   \<and> (\<not> isspace y \<and> \<not> isdigit y \<and> y \<noteq> CHR ''-'' \<and> y \<noteq> CHR ''+'' \<longrightarrow> atoi (y # u) = 0)
   \<and> (v = [] \<or> \<not> isdigit (hd v) \<longrightarrow> atoi (CHR ''-'' # v) = 0 \<and> atoi (CHR ''+'' # v) = 0)
   \<and> parseLinea ''M,,5'' = ([], Some (TramaMap 5))
   \<and> parseLinea ''M,2,3'' = ([], Some (TramaMap 2))
   \<and> parseLinea ''M,-2'' = ([], Some (TramaMap (- 2)))
   \<and> parseLinea ''m, +7x'' = ([], Some (TramaMap 7))"
proof (intro conjI impI)
  assume "trim (take 127 (cstr l)) = tok @ replicate (Suc k) CHR '','' @ arg @ resto
      \<and> CHR '','' \<notin> set tok \<and> (trim tok = ''M'' \<or> trim tok = ''m'')
      \<and> arg \<noteq> [] \<and> CHR '','' \<notin> set arg \<and> (resto = [] \<or> hd resto = CHR '','')"
  then show "parseLinea l = ([], Some (TramaMap (atoi (trim arg))))"
    using parse_M_forma [of l tok k arg resto] by blast
next
  assume a: "ds \<noteq> [] \<and> (\<forall>d\<in>set ds. isdigit d) \<and> \<not> isdigit x"
  then show "atoi (ds @ x # r) = atoi ds"
    using strtol10_digitos [of ds x r] by (simp add: atoi_def)
  from a show "atoi (CHR ''-'' # ds @ x # r) = atoi (CHR ''-'' # ds)"
    using strtol10_signo [of "CHR ''-''" ds x r] by (simp add: atoi_def)
  from a show "atoi (CHR ''+'' # ds @ x # r) = atoi (CHR ''+'' # ds)"
    using strtol10_signo [of "CHR ''+''" ds x r] by (simp add: atoi_def)
next
  show "atoi [] = 0" by (rule atoi_vacio)
next
  assume "\<not> isspace y \<and> \<not> isdigit y \<and> y \<noteq> CHR ''-'' \<and> y \<noteq> CHR ''+''"
  then show "atoi (y # u) = 0" using atoi_sin_digitos [of y u] by blast
next
  assume a: "v = [] \<or> \<not> isdigit (hd v)"
  then show "atoi (CHR ''-'' # v) = 0" using atoi_signo_sin_digitos [of "CHR ''-''" v] by blast
  from a show "atoi (CHR ''+'' # v) = 0" using atoi_signo_sin_digitos [of "CHR ''+''" v] by blast
next
  show "parseLinea ''M,,5'' = ([], Some (TramaMap 5))" by (rule parse_M_coma_coma_5)
  show "parseLinea ''M,2,3'' = ([], Some (TramaMap 2))" by (rule parse_M_2_3)
  show "parseLinea ''M,-2'' = ([], Some (TramaMap (- 2)))" by (rule parse_M_menos_2)
  show "parseLinea ''m, +7x'' = ([], Some (TramaMap 7))" by (rule parse_m_mas_7x)
qed

text \<open>The amended claim at the line \<^verbatim>\<open>M,,5\<close>, at the argument \<^verbatim>\<open>2,3\<close> and at arguments without
  digits.\<close>

theorem C6_witness:
  "parseLinea ''M,,5'' = ([], Some (TramaMap (atoi (trim ''5''))))
   \<and> atoi (''2'' @ CHR '','' # ''3'') = atoi ''2''
   \<and> atoi (CHR ''x'' # ''1'') = 0
   \<and> atoi (CHR ''-'' # ''x'') = 0"
proof -
  have h1: "trim (take 127 (cstr ''M,,5'')) = ''M'' @ replicate (Suc 1) CHR '','' @ ''5'' @ []
      \<and> CHR '','' \<notin> set ''M'' \<and> (trim ''M'' = ''M'' \<or> trim ''M'' = ''m'')
      \<and> ''5'' \<noteq> [] \<and> CHR '','' \<notin> set ''5'' \<and> ([] = [] \<or> hd [] = CHR '','')"
    using forma_M_coma_coma_5 trim_M by simp
  have h2: "''2'' \<noteq> [] \<and> (\<forall>d\<in>set ''2''. isdigit d) \<and> \<not> isdigit CHR '',''"
    by (simp add: isdigit_def)
  have h3: "\<not> isspace CHR ''x'' \<and> \<not> isdigit CHR ''x'' \<and> CHR ''x'' \<noteq> CHR ''-''
      \<and> CHR ''x'' \<noteq> CHR ''+''"
    by (simp add: isdigit_def isspace_def)
  have h4: "''x'' = [] \<or> \<not> isdigit (hd ''x'')"
    by (simp add: isdigit_def)
  note t = C6_trama_M [where l = "''M,,5''" and tok = "''M''" and k = 1 and arg = "''5''"
      and resto = "[]" and ds = "''2''" and x = "CHR '',''" and r = "''3''"
      and y = "CHR ''x''" and u = "''1''" and v = "''x''"]
  from t h1 h2 h3 h4 show ?thesis by blast
qed

text \<open>
  Claim C7, as stated, fails: a blank line is not skipped silently. \<^verbatim>\<open>parseLinea\<close> returns
  \<^verbatim>\<open>nullptr\<close> for it as for any line without a frame, and \<^verbatim>\<open>main\<close> prints its message for
  an invalid frame.
\<close>

theorem C7_contraejemplo:
  "map_option cout (paso ''   '' sesion_inicial)
     = Some (''Trama recibida: [   ] '' @ '' -> Trama inv'' @ [CHR 0xC3, CHR 0xA1]
               @ ''lida. Se ignora.'' @ [CHR 0x0A])"
  by (rule paso_blanco_inicial)

text \<open>
  Claim C7, amended. For every line that is empty or holds only white space, \<^verbatim>\<open>parseLinea\<close>
  returns no frame and prints nothing itself; the step of \<^verbatim>\<open>main\<close> leaves the list and the
  rotor as they are, prints the line and the message for an invalid frame, and the loop
  goes on with the next line.
\<close>

theorem C7_linea_en_blanco:
  "(\<forall>x\<in>set l. isspace x) \<longrightarrow>
     parseLinea l = ([], None)
     \<and> paso l s = Some (s\<lparr>cout := cout s @ ''Trama recibida: ['' @ l @ ''] '' @ trama_invalida\<rparr>)
     \<and> map_option miCarga (paso l s) = Some (miCarga s)
     \<and> map_option miRotor (paso l s) = Some (miRotor s)
     \<and> ejecutar (l # ls) s
         = ejecutar ls (s\<lparr>cout := cout s @ ''Trama recibida: ['' @ l @ ''] '' @ trama_invalida\<rparr>)"
proof
  assume a: "\<forall>x\<in>set l. isspace x"
  then have p: "parseLinea l = ([], None)" by (intro parse_blanco) blast
  have c: "cstr l = l" using a by (intro cstr_espacios) blast
  have q: "paso l s = Some (s\<lparr>cout := cout s @ ''Trama recibida: ['' @ l @ ''] '' @ trama_invalida\<rparr>)"
    using paso_sin_trama [of l s] p c by simp
  show "parseLinea l = ([], None)
     \<and> paso l s = Some (s\<lparr>cout := cout s @ ''Trama recibida: ['' @ l @ ''] '' @ trama_invalida\<rparr>)
     \<and> map_option miCarga (paso l s) = Some (miCarga s)
     \<and> map_option miRotor (paso l s) = Some (miRotor s)
     \<and> ejecutar (l # ls) s
         = ejecutar ls (s\<lparr>cout := cout s @ ''Trama recibida: ['' @ l @ ''] '' @ trama_invalida\<rparr>)"
    unfolding ejecutar.simps q using p by simp
qed

text \<open>The amended claim at a line of three spaces.\<close>

theorem C7_witness:
  "parseLinea ''   '' = ([], None)
   \<and> map_option miCarga (paso ''   '' sesion_inicial) = Some (miCarga sesion_inicial)
   \<and> map_option miRotor (paso ''   '' sesion_inicial) = Some (miRotor sesion_inicial)"
proof -
  have "\<forall>x\<in>set ''   ''. isspace x" by (simp add: isspace_def)
  with C7_linea_en_blanco [of "''   ''" sesion_inicial "[]"] show ?thesis by blast
qed

text \<open>
  Claim C8. For every list of lines the loop of \<^verbatim>\<open>main\<close> runs to the end of the list from
  the fresh session: no line makes it stop or fault. Every line for which \<^verbatim>\<open>parseLinea\<close>
  returns no frame is reported and skipped: the step prints the line, the diagnostic of the
  parser and the message of \<^verbatim>\<open>main\<close> for an invalid frame, leaves the list and the rotor as
  they are, and the session ends in the same list and rotor as without that line. The loop
  goes on: after any lines \<open>pre\<close>, running the line and then the lines \<open>post\<close> is running
  \<open>post\<close> from the state \<open>pre\<close> has left, with the report of the line appended to the output.
  The diagnostic of the parser names the error: a line whose first token, trimmed, is not empty
  and is not \<^verbatim>\<open>L\<close>, \<^verbatim>\<open>l\<close>, \<^verbatim>\<open>M\<close> or \<^verbatim>\<open>m\<close> prints the unknown type with that token, and an
  \<^verbatim>\<open>L\<close> or \<^verbatim>\<open>M\<close> token followed by nothing but commas prints the missing argument. The lines
  \<^verbatim>\<open>X,1\<close> and \<^verbatim>\<open>L,\<close> are instances: between \<^verbatim>\<open>L,H\<close> and \<^verbatim>\<open>L,O\<close> they leave the list holding
  \<^verbatim>\<open>HO\<close>, and run alone they print their two reports. Lines are taken as the buffer holds
  them (the first 127 characters, trimmed).
\<close>

theorem C8_linea_invalida:
  "(\<exists>sf. ejecutar ls sesion_inicial = Some sf)
   \<and> (snd (parseLinea l) = None \<longrightarrow>
        paso l s = Some (s\<lparr>cout := cout s @ ''Trama recibida: ['' @ cstr l @ ''] ''
                            @ fst (parseLinea l) @ trama_invalida\<rparr>)
        \<and> (\<exists>s1 s2. ejecutar (pre @ l # post) sesion_inicial = Some s1
              \<and> ejecutar (pre @ post) sesion_inicial = Some s2
              \<and> miCarga s1 = miCarga s2 \<and> miRotor s1 = miRotor s2)
        \<and> ejecutar (l # post) s
            = ejecutar post (s\<lparr>cout := cout s @ ''Trama recibida: ['' @ cstr l @ ''] ''
                                  @ fst (parseLinea l) @ trama_invalida\<rparr>)
        \<and> (\<exists>s0. ejecutar pre sesion_inicial = Some s0
              \<and> ejecutar (pre @ l # post) sesion_inicial
                  = ejecutar post (s0\<lparr>cout := cout s0 @ ''Trama recibida: ['' @ cstr l
                                         @ ''] '' @ fst (parseLinea l) @ trama_invalida\<rparr>)))
   \<and> (trim (take 127 (cstr l1)) = tok1 @ resto1 \<and> CHR '','' \<notin> set tok1
        \<and> (resto1 = [] \<or> hd resto1 = CHR '','') \<and> trim tok1 \<noteq> []
        \<and> trim tok1 \<notin> {''L'', ''l'', ''M'', ''m''}
      \<longrightarrow> parseLinea l1 = (''Tipo de trama desconocido: '' @ trim tok1 @ endl, None))
   \<and> (trim (take 127 (cstr l2)) = tok2 @ replicate k CHR '','' \<and> CHR '','' \<notin> set tok2
        \<and> (trim tok2 = ''L'' \<or> trim tok2 = ''l'')
      \<longrightarrow> parseLinea l2 = (''Trama L sin argumento.'' @ endl, None))
   \<and> (trim (take 127 (cstr l3)) = tok3 @ replicate j CHR '','' \<and> CHR '','' \<notin> set tok3
        \<and> (trim tok3 = ''M'' \<or> trim tok3 = ''m'')
      \<longrightarrow> parseLinea l3 = (''Trama M sin argumento.'' @ endl, None))
   \<and> parseLinea ''X,1'' = (''Tipo de trama desconocido: X'' @ endl, None)
   \<and> parseLinea ''L,'' = (''Trama L sin argumento.'' @ endl, None)
   \<and> map_option (\<lambda>s. contenido (miCarga s))
        (ejecutar [''L,H'', ''X,1'', ''L,'', ''L,O''] sesion_inicial) = Some (Some ''HO'')
   \<and> map_option cout (ejecutar [''X,1'', ''L,''] sesion_inicial)
       = Some (''Trama recibida: [X,1] Tipo de trama desconocido: X'' @ [CHR 0x0A]
               @ '' -> Trama inv'' @ [CHR 0xC3, CHR 0xA1] @ ''lida. Se ignora.'' @ [CHR 0x0A]
               @ ''Trama recibida: [L,] Trama L sin argumento.'' @ [CHR 0x0A]
               @ '' -> Trama inv'' @ [CHR 0xC3, CHR 0xA1] @ ''lida. Se ignora.'' @ [CHR 0x0A])"
proof (intro conjI impI)
  show "\<exists>sf. ejecutar ls sesion_inicial = Some sf" by (rule ejecutar_total)
next
  assume a: "snd (parseLinea l) = None"
  show "paso l s = Some (s\<lparr>cout := cout s @ ''Trama recibida: ['' @ cstr l @ ''] ''
                            @ fst (parseLinea l) @ trama_invalida\<rparr>)"
    by (rule paso_sin_trama [OF a])
  show "\<exists>s1 s2. ejecutar (pre @ l # post) sesion_inicial = Some s1
              \<and> ejecutar (pre @ post) sesion_inicial = Some s2
              \<and> miCarga s1 = miCarga s2 \<and> miRotor s1 = miRotor s2"
    by (rule ejecutar_salta [OF a])
  show "ejecutar (l # post) s
            = ejecutar post (s\<lparr>cout := cout s @ ''Trama recibida: ['' @ cstr l @ ''] ''
                                  @ fst (parseLinea l) @ trama_invalida\<rparr>)"
    by (rule ejecutar_sin_trama [OF a])
  show "\<exists>s0. ejecutar pre sesion_inicial = Some s0
              \<and> ejecutar (pre @ l # post) sesion_inicial
                  = ejecutar post (s0\<lparr>cout := cout s0 @ ''Trama recibida: ['' @ cstr l
                                         @ ''] '' @ fst (parseLinea l) @ trama_invalida\<rparr>)"
    by (rule ejecutar_sin_trama_en_medio [OF a])
next
  assume "trim (take 127 (cstr l1)) = tok1 @ resto1 \<and> CHR '','' \<notin> set tok1
        \<and> (resto1 = [] \<or> hd resto1 = CHR '','') \<and> trim tok1 \<noteq> []
        \<and> trim tok1 \<notin> {''L'', ''l'', ''M'', ''m''}"
  then show "parseLinea l1 = (''Tipo de trama desconocido: '' @ trim tok1 @ endl, None)"
    using parse_desconocido [of l1 tok1 resto1] by blast
next
  assume "trim (take 127 (cstr l2)) = tok2 @ replicate k CHR '','' \<and> CHR '','' \<notin> set tok2
        \<and> (trim tok2 = ''L'' \<or> trim tok2 = ''l'')"
  then show "parseLinea l2 = (''Trama L sin argumento.'' @ endl, None)"
    using parse_L_sin_argumento [of l2 tok2 k] by blast
next
  assume "trim (take 127 (cstr l3)) = tok3 @ replicate j CHR '','' \<and> CHR '','' \<notin> set tok3
        \<and> (trim tok3 = ''M'' \<or> trim tok3 = ''m'')"
  then show "parseLinea l3 = (''Trama M sin argumento.'' @ endl, None)"
    using parse_M_sin_argumento [of l3 tok3 j] by blast
next
  show "parseLinea ''X,1'' = (''Tipo de trama desconocido: X'' @ endl, None)"
    by (rule parse_X_1)
  show "parseLinea ''L,'' = (''Trama L sin argumento.'' @ endl, None)"
    by (rule parse_L_coma)
  show "map_option (\<lambda>s. contenido (miCarga s))
        (ejecutar [''L,H'', ''X,1'', ''L,'', ''L,O''] sesion_inicial) = Some (Some ''HO'')"
    by (rule sesion_con_invalidas_contenido)
  show "map_option cout (ejecutar [''X,1'', ''L,''] sesion_inicial)
       = Some (''Trama recibida: [X,1] Tipo de trama desconocido: X'' @ [CHR 0x0A]
               @ '' -> Trama inv'' @ [CHR 0xC3, CHR 0xA1] @ ''lida. Se ignora.'' @ [CHR 0x0A]
               @ ''Trama recibida: [L,] Trama L sin argumento.'' @ [CHR 0x0A]
               @ '' -> Trama inv'' @ [CHR 0xC3, CHR 0xA1] @ ''lida. Se ignora.'' @ [CHR 0x0A])"
    by (rule sesion_con_invalidas_cout)
qed

text \<open>The claim at the lines \<^verbatim>\<open>X,1\<close> and \<^verbatim>\<open>L,\<close>, the first of them between the lines
  \<^verbatim>\<open>L,H\<close> and \<^verbatim>\<open>L,O\<close>.\<close>

theorem C8_witness:
  "paso ''X,1'' sesion_inicial
     = Some (sesion_inicial\<lparr>cout := cout sesion_inicial @ ''Trama recibida: ['' @ cstr ''X,1''
               @ ''] '' @ fst (parseLinea ''X,1'') @ trama_invalida\<rparr>)
   \<and> (\<exists>s1 s2. ejecutar ([''L,H''] @ ''X,1'' # [''L,O'']) sesion_inicial = Some s1
         \<and> ejecutar ([''L,H''] @ [''L,O'']) sesion_inicial = Some s2
         \<and> miCarga s1 = miCarga s2 \<and> miRotor s1 = miRotor s2)
   \<and> ejecutar (''X,1'' # [''L,O'']) sesion_inicial
       = ejecutar [''L,O''] (sesion_inicial\<lparr>cout := cout sesion_inicial
           @ ''Trama recibida: ['' @ cstr ''X,1'' @ ''] '' @ fst (parseLinea ''X,1'')
           @ trama_invalida\<rparr>)
   \<and> (\<exists>s0. ejecutar [''L,H''] sesion_inicial = Some s0
         \<and> ejecutar ([''L,H''] @ ''X,1'' # [''L,O'']) sesion_inicial
             = ejecutar [''L,O''] (s0\<lparr>cout := cout s0 @ ''Trama recibida: ['' @ cstr ''X,1''
                                      @ ''] '' @ fst (parseLinea ''X,1'') @ trama_invalida\<rparr>))
   \<and> parseLinea ''X,1'' = (''Tipo de trama desconocido: '' @ trim ''X'' @ endl, None)
   \<and> parseLinea ''L,'' = (''Trama L sin argumento.'' @ endl, None)"
proof -
  have h0: "snd (parseLinea ''X,1'') = None" by (simp add: parse_X_1)
  have h1: "trim (take 127 (cstr ''X,1'')) = ''X'' @ '',1'' \<and> CHR '','' \<notin> set ''X''
        \<and> ('',1'' = [] \<or> hd '',1'' = CHR '','') \<and> trim ''X'' \<noteq> []
        \<and> trim ''X'' \<notin> {''L'', ''l'', ''M'', ''m''}"
    using forma_X_1 by (simp add: trim_X)
  have h2: "trim (take 127 (cstr ''L,'')) = ''L'' @ replicate 1 CHR '','' \<and> CHR '','' \<notin> set ''L''
        \<and> (trim ''L'' = ''L'' \<or> trim ''L'' = ''l'')"
    using forma_L_coma by (simp add: trim_L)
  note t = C8_linea_invalida [where l = "''X,1''" and s = sesion_inicial and pre = "[''L,H'']"
      and post = "[''L,O'']" and ?l1.0 = "''X,1''" and ?tok1.0 = "''X''" and ?resto1.0 = "'',1''"
      and ?l2.0 = "''L,''" and ?tok2.0 = "''L''" and k = 1]
  from t h0 h1 h2 show ?thesis by blast
qed




text \<open>
  Claim C10, as stated, fails: an empty field trims to the empty string too, and \<^verbatim>\<open>strtok\<close>
  skips it, so the line \<^verbatim>\<open>L,,X\<close> is accepted and the later field \<^verbatim>\<open>X\<close> is the payload.
\<close>

theorem C10_contraejemplo:
  "parseLinea ''L,,X'' = ([], Some (TramaLoad CHR ''X''))"
  by (rule parse_L_coma_coma_X)

text \<open>
  Claim C10, amended. The line is taken as the buffer holds it (its first 127 characters,
  trimmed). When the first token trims to \<^verbatim>\<open>L\<close> or \<^verbatim>\<open>l\<close> and the first non-empty field after
  it holds only white space and is closed by a comma, as in \<^verbatim>\<open>L, ,X\<close>, the parser returns no
  frame and prints nothing: the message of \<^verbatim>\<open>main\<close> for an invalid frame is all that follows
  the line in the output, the text after that comma is never the payload, and the list and
  the rotor stay as they are.
\<close>

theorem C10_campo_en_blanco:
  "(trim (take 127 (cstr l)) = tok @ replicate (Suc k) CHR '','' @ f @ CHR '','' # resto
      \<and> CHR '','' \<notin> set tok \<and> (trim tok = ''L'' \<or> trim tok = ''l'')
      \<and> f \<noteq> [] \<and> (\<forall>x\<in>set f. isspace x)
    \<longrightarrow> parseLinea l = ([], None)
      \<and> paso l s = Some (s\<lparr>cout := cout s @ ''Trama recibida: ['' @ cstr l @ ''] ''
                           @ trama_invalida\<rparr>))
   \<and> parseLinea ''L, ,X'' = ([], None)"
proof (intro conjI impI)
  assume a: "trim (take 127 (cstr l)) = tok @ replicate (Suc k) CHR '','' @ f @ CHR '','' # resto
      \<and> CHR '','' \<notin> set tok \<and> (trim tok = ''L'' \<or> trim tok = ''l'')
      \<and> f \<noteq> [] \<and> (\<forall>x\<in>set f. isspace x)"
  then show p: "parseLinea l = ([], None)"
    using parse_L_campo_blanco [of l tok k f resto] by blast
  then show "paso l s = Some (s\<lparr>cout := cout s @ ''Trama recibida: ['' @ cstr l @ ''] ''
                           @ trama_invalida\<rparr>)"
    using paso_sin_trama [of l s] by simp
next
  show "parseLinea ''L, ,X'' = ([], None)" by (rule parse_L_blanco_X)
qed

text \<open>The amended claim at the line \<^verbatim>\<open>L, ,X\<close>.\<close>

theorem C10_witness:
  "parseLinea ''L, ,X'' = ([], None)
   \<and> paso ''L, ,X'' sesion_inicial
       = Some (sesion_inicial\<lparr>cout := cout sesion_inicial @ ''Trama recibida: [''
                 @ cstr ''L, ,X'' @ ''] '' @ trama_invalida\<rparr>)"
proof -
  have h: "trim (take 127 (cstr ''L, ,X''))
        = ''L'' @ replicate (Suc 0) CHR '','' @ '' '' @ CHR '','' # ''X''
      \<and> CHR '','' \<notin> set ''L'' \<and> (trim ''L'' = ''L'' \<or> trim ''L'' = ''l'')
      \<and> '' '' \<noteq> [] \<and> (\<forall>x\<in>set '' ''. isspace x)"
    using forma_L_blanco_X by (simp add: trim_L isspace_def)
  note t = C10_campo_en_blanco [where l = "''L, ,X''" and tok = "''L''" and k = 0 and f = "'' ''"
      and resto = "''X''" and s = sesion_inicial]
  from t h show ?thesis by blast
qed

end
